theory Spec2Isabelle
  imports Complex_Main
begin

section \<open>Strings\<close>

text \<open>
  JavaScript strings are modelled as \<open>string\<close>: every \<open>char\<close> is one code unit below 256.
  \<open>startsWith\<close>, \<open>includes\<close> (here \<open>str_includes\<close>), \<open>slice(0, n)\<close> and \<open>trim\<close> are the methods of
  \<open>String.prototype\<close> that \<open>src/lib/audit.ts\<close> calls.
\<close>

fun startsWith :: "string \<Rightarrow> string \<Rightarrow> bool" where
  "startsWith s [] = True"
| "startsWith [] (p # ps) = False"
| "startsWith (c # cs) (p # ps) = (c = p \<and> startsWith cs ps)"

fun str_includes :: "string \<Rightarrow> string \<Rightarrow> bool" where
  "str_includes [] sub = (sub = [])"
| "str_includes (c # cs) sub = (startsWith (c # cs) sub \<or> str_includes cs sub)"

definition slice0 :: "nat \<Rightarrow> string \<Rightarrow> string" where
  "slice0 n s = take n s"

definition js_whitespace :: "char \<Rightarrow> bool" where
  \<comment> \<open>the white space and line terminator code units below 256: TAB, LF, VT, FF, CR, SP, NBSP\<close>
  "js_whitespace c = ((of_char c :: nat) \<in> {9, 10, 11, 12, 13, 32, 160})"

definition trim :: "string \<Rightarrow> string" where
  "trim s = rev (dropWhile js_whitespace (rev (dropWhile js_whitespace s)))"

definition orElse :: "'a option \<Rightarrow> 'a \<Rightarrow> 'a" where
  \<comment> \<open>\<open>x ?? d\<close>\<close>
  "orElse x d = (case x of None \<Rightarrow> d | Some v \<Rightarrow> v)"

definition orEmpty :: "string option \<Rightarrow> string" where
  \<comment> \<open>\<open>x || ''\<close> on \<open>string | undefined\<close>\<close>
  "orEmpty x = (case x of None \<Rightarrow> [] | Some v \<Rightarrow> v)"

section \<open>The report (lines 3--55)\<close>

record ImageIssue =
  src :: string
  alt :: bool
  missingFormats :: bool
  oversized :: bool

text \<open>The field \<open>url\<close> of \<open>LinkIssue\<close> is \<open>link_url\<close> here: \<open>url\<close> is the report's field.\<close>

record LinkIssue =
  link_url :: string
  statusCode :: "int option"
  broken :: bool

datatype RedirectType = Www | NonWww | HttpHttps | Other

record RedirectIssue =
  issue_type :: RedirectType
  message :: string

text \<open>
  A field declared with \<open>?\<close> or \<open>| null\<close> is an \<open>option\<close>. Numbers are \<open>int\<close>: every
  number the program stores in a report is a length, a difference of two clock readings,
  a status code or the result of \<open>Math.round\<close>.
\<close>

record AuditResult =
  url :: string
  status :: "int option"
  responseTimeMs :: "int option"
  contentType :: "string option"
  title :: "string option"
  metaDescription :: "string option"
  h1Count :: "int option"
  totalImages :: "int option"
  imgWithoutAlt :: "int option"
  imageIssues :: "ImageIssue list option"
  totalLinks :: "int option"
  brokenLinks :: "LinkIssue list option"
  externalLinks :: "int option"
  scriptsCount :: "int option"
  inlineStylesCount :: "int option"
  hasRobots :: "bool option"
  hasSitemap :: "bool option"
  ttfbMs :: "int option"
  fcpMs :: "int option"
  lcpMs :: "int option"
  hasViewport :: "bool option"
  responsive :: "bool option"
  isHttps :: "bool option"
  hasHsts :: "bool option"
  hasMixedContent :: "bool option"
  redirects :: "RedirectIssue list option"
  score :: "int option"
  error :: "string option"

definition truthy :: "bool option \<Rightarrow> bool" where
  \<comment> \<open>the truth value of a \<open>boolean | undefined\<close>\<close>
  "truthy b = (b = Some True)"

section \<open>Numbers\<close>

text \<open>
  The numbers of \<open>estimateMetrics\<close> are IEEE-754 doubles, modelled as the reals they
  denote. \<open>fl x\<close> is the double nearest to \<open>x\<close>, with ties to the even significand: the value
  of an arithmetic operation whose exact result is \<open>x\<close>, for \<open>\<bar>x\<bar> < 2 ^ 1024\<close>. \<open>expo x\<close> is
  the binary exponent of \<open>x\<close>, \<open>ulp x\<close> the distance between the doubles around \<open>x\<close> (53
  significant bits, exponents from \<open>- 1022\<close> upwards).
\<close>

definition pow2 :: "int \<Rightarrow> real" where
  \<comment> \<open>2 to the power \<open>k\<close>\<close>
  "pow2 k = (if 0 \<le> k then 2 ^ nat k else 1 / 2 ^ nat (- k))"

fun expoFrom :: "nat \<Rightarrow> int \<Rightarrow> real \<Rightarrow> int" where
  \<comment> \<open>the greatest \<open>e\<close> among \<open>k\<close>, \<open>k - 1\<close>, ... (\<open>n\<close> of them) with \<open>pow2 e \<le> a\<close>, and \<open>k - n\<close> if
      there is none\<close>
  "expoFrom 0 k a = k"
| "expoFrom (Suc n) k a = (if pow2 k \<le> a then k else expoFrom n (k - 1) a)"

definition expo :: "real \<Rightarrow> int" where
  \<comment> \<open>\<open>pow2 (expo x) \<le> \<bar>x\<bar> < pow2 (expo x + 1)\<close> for \<open>\<bar>x\<bar>\<close> from \<open>2 ^ - 1074\<close> up to \<open>2 ^ 1024\<close>, and
      \<open>- 1075\<close> for a smaller \<open>\<bar>x\<bar>\<close>\<close>
  "expo x = expoFrom 2098 1023 \<bar>x\<bar>"

definition roundEven :: "real \<Rightarrow> int" where
  \<comment> \<open>the nearest integer; of two nearest integers, the even one\<close>
  "roundEven y =
     (let f = \<lfloor>y\<rfloor>; d = y - of_int f
      in if d < 1 / 2 then f else if 1 / 2 < d then f + 1 else if even f then f else f + 1)"

definition ulp :: "real \<Rightarrow> real" where
  \<comment> \<open>\<open>2 ^ (e - 52)\<close> for a number with the exponent \<open>e\<close>, and \<open>2 ^ - 1074\<close> for the subnormal ones\<close>
  "ulp x = pow2 (max (expo x) (- 1022) - 52)"

definition fl :: "real \<Rightarrow> real" where
  "fl x = ulp x * of_int (roundEven (x / ulp x))"

section \<open>estimateMetrics (lines 66--78)\<close>

text \<open>
  The first two arguments are integers below \<open>2 ^ 53\<close>, which are doubles. The third
  argument is the double \<open>Math.random()\<close> returns in the call. Every operation rounds its
  result to a double.
\<close>

record Metrics =
  ttfb :: real
  fcp :: real
  lcp :: real

definition estimateMetrics :: "int \<Rightarrow> nat \<Rightarrow> real \<Rightarrow> Metrics" where
  "estimateMetrics responseTime htmlSize rnd =
     (let ttfb = max (fl (real_of_int responseTime - 50)) 0;
          fcpBase = fl (ttfb + min (fl (real htmlSize / 100)) 500);
          lcp = fl (fcpBase + fl (rnd * 800))
      in \<lparr>ttfb = ttfb, fcp = fcpBase, lcp = lcp\<rparr>)"

section \<open>analyzeImages (lines 97--118)\<close>

text \<open>An \<open>img\<close> element, as \<open>attr('src')\<close> and \<open>attr('alt')\<close> read it.\<close>

record img =
  img_src :: "string option"
  img_alt :: "string option"

definition noAlt :: "string option \<Rightarrow> bool" where
  \<comment> \<open>\<open>!alt || String(alt).trim() === ''\<close>\<close>
  "noAlt a = (case a of None \<Rightarrow> True | Some t \<Rightarrow> t = [] \<or> trim t = [])"

definition imageIssue :: "img \<Rightarrow> ImageIssue" where
  "imageIssue el =
     (let s = orEmpty (img_src el); a = img_alt el
      in \<lparr>src = slice0 80 s,
          alt = noAlt a,
          missingFormats = (\<not> str_includes s ''.webp''),
          oversized = (str_includes s ''large'' \<or> str_includes s ''big'' \<or> str_includes s ''original'')\<rparr>)"

definition pushImage :: "ImageIssue list \<Rightarrow> img \<Rightarrow> ImageIssue list" where
  \<comment> \<open>the callback of \<open>imgs.each\<close>\<close>
  "pushImage issues el =
     (let issue = imageIssue el
      in if alt issue \<or> missingFormats issue \<or> oversized issue then issues @ [issue] else issues)"

definition analyzeImages :: "img list \<Rightarrow> ImageIssue list" where
  "analyzeImages imgs = take 10 (foldl pushImage [] imgs)"

section \<open>The environment\<close>

text \<open>
  A thrown value, with the text \<open>String(err?.message ?? err)\<close> gives for it.
\<close>

datatype exn = Exn (exn_message: string)

datatype meth = GET | HEAD

text \<open>
  A \<open>Response\<close> of the Fetch API: \<open>status\<close>, the final \<open>url\<close>, \<open>headers.get\<close> and
  \<open>text()\<close>, which may reject.
\<close>

record response =
  res_status :: int
  res_url :: string
  res_header :: "string \<Rightarrow> string option"
  res_text :: "exn + string"

definition res_ok :: "response \<Rightarrow> bool" where
  \<comment> \<open>\<open>Response.ok\<close>: the status is in the range 200--299\<close>
  "res_ok r = (200 \<le> res_status r \<and> res_status r \<le> 299)"

text \<open>The calls the program makes to the outside, in the order it makes them.\<close>

datatype event = Fetch meth string | Load string

text \<open>A parsed document, as the selectors of \<open>runAudit\<close> see it.\<close>

record document =
  doc_title :: string
  doc_description :: "string option"
  doc_h1 :: nat
  doc_imgs :: "img list"
  doc_anchors :: "string option list"
  doc_scripts :: nat
  doc_styled :: nat

text \<open>
  The network, the clock, the random number generator, the markup parser and the
  \<open>URL\<close> class are parameters. \<open>fetch\<close> and \<open>now\<close> may depend on all earlier calls.
  \<open>'u\<close> is the type of \<open>URL\<close> objects; \<open>URL_new\<close> and \<open>URL_new_base\<close> are \<open>None\<close> where the
  constructor throws.
\<close>

record 'u world =
  fetch :: "event list \<Rightarrow> meth \<Rightarrow> string \<Rightarrow> exn + response"
  now :: "event list \<Rightarrow> int"
  random :: real
  cheerio_load :: "string \<Rightarrow> exn + document"
  URL_new :: "string \<Rightarrow> 'u option"
  URL_new_base :: "string \<Rightarrow> string \<Rightarrow> 'u option"
  URL_origin :: "'u \<Rightarrow> string"
  URL_hostname :: "'u \<Rightarrow> string"
  URL_protocol :: "'u \<Rightarrow> string"
  URL_toString :: "'u \<Rightarrow> string"
  URL_set_hostname :: "'u \<Rightarrow> string \<Rightarrow> 'u"
  URL_set_protocol :: "'u \<Rightarrow> string \<Rightarrow> 'u"

section \<open>safeOrigin (lines 57--63)\<close>

definition safeOrigin :: "'u world \<Rightarrow> string \<Rightarrow> string option" where
  "safeOrigin w input = (case URL_new w input of None \<Rightarrow> None | Some u \<Rightarrow> Some (URL_origin w u))"

section \<open>hasMixedContentWarning and checkViewportMeta (lines 81--94)\<close>

definition lower :: "char \<Rightarrow> char" where
  "lower c = (let n = (of_char c :: nat) in if 65 \<le> n \<and> n \<le> 90 then char_of (n + 32) else c)"

fun startsWithCI :: "string \<Rightarrow> string \<Rightarrow> bool" where
  "startsWithCI s [] = True"
| "startsWithCI [] (p # ps) = False"
| "startsWithCI (c # cs) (p # ps) = (lower c = lower p \<and> startsWithCI cs ps)"

fun anySuffix :: "(string \<Rightarrow> bool) \<Rightarrow> string \<Rightarrow> bool" where
  "anySuffix P [] = P []"
| "anySuffix P (c # cs) = (P (c # cs) \<or> anySuffix P cs)"

fun afterGap :: "(string \<Rightarrow> bool) \<Rightarrow> string \<Rightarrow> bool" where
  \<comment> \<open>\<open>[^>]*\<close> and then \<open>R\<close>\<close>
  "afterGap R [] = R []"
| "afterGap R (c # cs) = (R (c # cs) \<or> (c \<noteq> CHR ''>'' \<and> afterGap R cs))"

definition tagPattern :: "string \<Rightarrow> (string \<Rightarrow> bool) \<Rightarrow> string \<Rightarrow> bool" where
  \<comment> \<open>the pattern \<open>tag[^>]+R\<close> with the flag \<open>i\<close>, tested anywhere in the text\<close>
  "tagPattern tag R html =
     anySuffix (\<lambda>s. startsWithCI s tag \<and>
        (case drop (length tag) s of [] \<Rightarrow> False | c # cs \<Rightarrow> c \<noteq> CHR ''>'' \<and> afterGap R cs)) html"

definition httpNotLocal :: "string \<Rightarrow> bool" where
  \<comment> \<open>\<open>http:\/\/(?!localhost)\<close>\<close>
  "httpNotLocal s = (startsWithCI s ''http://'' \<and> \<not> startsWithCI (drop 7 s) ''localhost'')"

definition hasMixedContentWarning :: "string \<Rightarrow> bool" where
  "hasMixedContentWarning html =
     (anySuffix httpNotLocal html
      \<or> tagPattern ''<img'' (\<lambda>s. startsWithCI s (''src='' @ [CHR 0x22]) \<and> httpNotLocal (drop 5 s)) html
      \<or> tagPattern ''<script'' (\<lambda>s. startsWithCI s (''src='' @ [CHR 0x22]) \<and> httpNotLocal (drop 5 s)) html
      \<or> tagPattern ''<link'' (\<lambda>s. startsWithCI s (''href='' @ [CHR 0x22]) \<and> httpNotLocal (drop 6 s)) html)"

definition checkViewportMeta :: "string \<Rightarrow> bool" where
  "checkViewportMeta html =
     tagPattern ''<meta''
       (\<lambda>s. startsWithCI s ''name='' \<and>
          (let t = drop 5 s
           in startsWithCI t ''viewport''
              \<or> ((startsWith t [CHR 0x22] \<or> startsWith t [CHR 0x27]) \<and> startsWithCI (drop 1 t) ''viewport''))) html"

section \<open>checkBrokenLinks (lines 121--156)\<close>

text \<open>
  The variables of the loop: the issues, the set \<open>checked\<close> in insertion order, the
  counter, and the calls made so far.
\<close>

record probeState =
  links :: "LinkIssue list"
  checked :: "string list"
  count :: nat
  calls :: "event list"

definition probeStep :: "'u world \<Rightarrow> string \<Rightarrow> string \<Rightarrow> probeState \<Rightarrow> probeState" where
  \<comment> \<open>lines 132--152: one link is probed\<close>
  "probeStep w baseUrl href st =
     (let st1 = st\<lparr>checked := checked st @ [href]\<rparr>
      in case URL_new_base w href baseUrl of
           None \<Rightarrow>
             st1\<lparr>links := links st1 @ [\<lparr>link_url = slice0 80 href, statusCode = None, broken = True\<rparr>],
                 count := count st1 + 1\<rparr>
         | Some u \<Rightarrow>
             (let target = URL_toString w u;
                  st2 = st1\<lparr>calls := calls st1 @ [Fetch HEAD target]\<rparr>
              in case fetch w (calls st1) HEAD target of
                   Inl err \<Rightarrow>
                     st2\<lparr>links := links st2 @ [\<lparr>link_url = slice0 80 href, statusCode = None, broken = True\<rparr>],
                         count := count st2 + 1\<rparr>
                 | Inr res \<Rightarrow>
                     (if 400 \<le> res_status res
                      then st2\<lparr>links := links st2 @
                             [\<lparr>link_url = slice0 80 href, statusCode = Some (res_status res),
                               broken = (400 \<le> res_status res)\<rparr>]\<rparr>
                      else st2)\<lparr>count := count st2 + 1\<rparr>))"

fun probeLoop :: "'u world \<Rightarrow> string \<Rightarrow> nat \<Rightarrow> string option list \<Rightarrow> probeState \<Rightarrow> probeState" where
  \<comment> \<open>the \<open>for\<close> loop over the anchors, lines 128--153\<close>
  "probeLoop w baseUrl limit [] st = st"
| "probeLoop w baseUrl limit (a # anchors) st =
     (if count st < limit then
        (let href = orEmpty a
         in if href = [] \<or> startsWith href ''#'' \<or> href \<in> set (checked st)
            then probeLoop w baseUrl limit anchors st
            else probeLoop w baseUrl limit anchors (probeStep w baseUrl href st))
      else st)"

definition checkBrokenLinks ::
  "'u world \<Rightarrow> event list \<Rightarrow> string option list \<Rightarrow> string \<Rightarrow> nat option \<Rightarrow> LinkIssue list \<times> event list" where
  \<comment> \<open>\<open>limit = 5\<close>: the limit is 5 where the caller gives none\<close>
  "checkBrokenLinks w evs anchors baseUrl limit =
     (let st = probeLoop w baseUrl (orElse limit 5) anchors
                 \<lparr>links = [], checked = [], count = 0, calls = evs\<rparr>
      in (links st, calls st))"

section \<open>checkRedirects (lines 159--195)\<close>

definition wwwVariant :: "'u world \<Rightarrow> 'u \<Rightarrow> 'u" where
  \<comment> \<open>lines 164 and 168--170: the second \<open>new URL(url)\<close>, with \<open>www.\<close> before its host name\<close>
  "wwwVariant w parsed =
     (if \<not> startsWith (URL_hostname w parsed) ''www''
      then URL_set_hostname w parsed (''www.'' @ URL_hostname w parsed)
      else parsed)"

definition nonWwwVariant :: "'u world \<Rightarrow> 'u \<Rightarrow> 'u" where
  \<comment> \<open>lines 165 and 172--174; \<open>replace(/^www\./, '')\<close> drops a leading \<open>www.\<close>\<close>
  "nonWwwVariant w parsed =
     (if startsWith (URL_hostname w parsed) ''www''
      then URL_set_hostname w parsed
             (if startsWith (URL_hostname w parsed) ''www.'' then drop 4 (URL_hostname w parsed)
              else URL_hostname w parsed)
      else parsed)"

definition httpVariant :: "'u world \<Rightarrow> 'u \<Rightarrow> 'u" where
  \<comment> \<open>lines 166 and 176--178\<close>
  "httpVariant w parsed =
     (if URL_protocol w parsed = ''https:'' then URL_set_protocol w parsed ''http:'' else parsed)"

definition checkRedirects :: "'u world \<Rightarrow> event list \<Rightarrow> string \<Rightarrow> RedirectIssue list \<times> event list" where
  "checkRedirects w evs targetUrl =
     (case URL_new w targetUrl of
        None \<Rightarrow> ([], evs)
      | Some parsed \<Rightarrow>
          (let www = wwwVariant w parsed;
               nonWww = nonWwwVariant w parsed;
               http = httpVariant w parsed
           in if URL_hostname w www \<noteq> URL_hostname w parsed then
                (case fetch w evs GET (URL_toString w www) of
                   Inl err \<Rightarrow> ([], evs @ [Fetch GET (URL_toString w www)])
                 | Inr res \<Rightarrow>
                     (if res_url res \<noteq> URL_toString w www
                          \<and> \<not> startsWith (res_url res) (URL_origin w parsed)
                      then [\<lparr>issue_type = Www, message = ''Inconsistent www redirect behavior''\<rparr>] else [],
                      evs @ [Fetch GET (URL_toString w www)]))
              else ([], evs)))"

section \<open>calculateScore (lines 198--209)\<close>

definition calculateScore :: "AuditResult \<Rightarrow> int" where
  "calculateScore result =
     (let score0 = 100;
          score1 = (if \<not> truthy (isHttps result) then score0 - 15 else score0);
          score2 = (if \<not> truthy (hasViewport result) then score1 - 10 else score1);
          score3 = (if orElse (imgWithoutAlt result) 0 > 0
                    then score2 - min 5 (orElse (imgWithoutAlt result) 0) else score2);
          score4 = (if orElse (map_option (\<lambda>l. int (length l)) (brokenLinks result)) 0 > 0
                    then score3 - min 10 (orElse (map_option (\<lambda>l. int (length l)) (brokenLinks result)) 0 * 2)
                    else score3);
          score5 = (if truthy (hasMixedContent result) then score4 - 10 else score4);
          score6 = (if orElse (responseTimeMs result) 0 > 3000 then score5 - 5 else score5)
      in max 0 score6)"

section \<open>runAudit (lines 211--345)\<close>

definition emptyResult :: "string \<Rightarrow> AuditResult" where
  \<comment> \<open>lines 212--241\<close>
  "emptyResult targetUrl =
     \<lparr>url = targetUrl, status = None, responseTimeMs = None, contentType = None,
      title = None, metaDescription = None, h1Count = Some 0, totalImages = Some 0,
      imgWithoutAlt = Some 0, imageIssues = Some [], totalLinks = Some 0, brokenLinks = Some [],
      externalLinks = Some 0, scriptsCount = Some 0, inlineStylesCount = Some 0,
      hasRobots = Some False, hasSitemap = Some False, ttfbMs = Some 0, fcpMs = Some 0,
      lcpMs = Some 0, hasViewport = Some False, responsive = Some False, isHttps = Some False,
      hasHsts = Some False, hasMixedContent = Some False, redirects = Some [],
      score = Some 0, error = None\<rparr>"

definition fetchBlock :: "'u world \<Rightarrow> string \<Rightarrow> AuditResult \<Rightarrow> AuditResult \<times> (exn + string)" where
  \<comment> \<open>the body of the first \<open>try\<close> (lines 247--263): the report as the block leaves it, and
      the thrown value or the text of the body\<close>
  "fetchBlock w targetUrl result =
     (let start = now w []
      in case fetch w [] GET targetUrl of
           Inl err \<Rightarrow> (result, Inl err)
         | Inr res \<Rightarrow>
             (let stop = now w [Fetch GET targetUrl];
                  result1 = result\<lparr>status := Some (res_status res),
                                   responseTimeMs := Some (stop - start),
                                   contentType := res_header res ''content-type'',
                                   isHttps := Some (startsWith (res_url res) ''https:''),
                                   hasHsts := Some (orEmpty (res_header res ''strict-transport-security'') \<noteq> [])\<rparr>
              in case res_text res of
                   Inl err \<Rightarrow> (result1, Inl err)
                 | Inr html \<Rightarrow>
                     (let metrics = estimateMetrics (stop - start) (length html) (random w)
                      in (result1\<lparr>ttfbMs := Some (round (ttfb metrics)),
                                  fcpMs := Some (round (fcp metrics)),
                                  lcpMs := Some (round (lcp metrics))\<rparr>, Inr html))))"

definition isExternal :: "'u world \<Rightarrow> string \<Rightarrow> string option \<Rightarrow> string option \<Rightarrow> bool" where
  \<comment> \<open>the callback of \<open>links.filter\<close> (lines 290--299)\<close>
  "isExternal w targetUrl origin a =
     (let href = orEmpty a
      in if href = [] then False
         else (case URL_new_base w href targetUrl of
                 None \<Rightarrow> False
               | Some u \<Rightarrow> URL_origin w u \<noteq> orElse origin (URL_origin w u)))"

definition analysisBlock ::
  "'u world \<Rightarrow> string \<Rightarrow> string option \<Rightarrow> string \<Rightarrow> event list \<Rightarrow> AuditResult
     \<Rightarrow> AuditResult \<times> exn option \<times> event list" where
  \<comment> \<open>the body of the second \<open>try\<close> (lines 273--312): the report as the block leaves it, the
      thrown value if there is one, and the calls made\<close>
  "analysisBlock w targetUrl origin html evs result =
     (case cheerio_load w html of
        Inl err \<Rightarrow> (result, Some err, evs @ [Load html])
      | Inr d \<Rightarrow>
          (let result1 = result\<lparr>
                 title := (if trim (doc_title d) = [] then None else Some (trim (doc_title d))),
                 metaDescription := (if orEmpty (doc_description d) = [] then None else doc_description d),
                 h1Count := Some (int (doc_h1 d)),
                 totalImages := Some (int (length (doc_imgs d))),
                 imgWithoutAlt := Some (int (length (filter (\<lambda>el. noAlt (img_alt el)) (doc_imgs d)))),
                 imageIssues := Some (analyzeImages (doc_imgs d)),
                 totalLinks := Some (int (length (doc_anchors d))),
                 externalLinks := Some (int (length (filter (isExternal w targetUrl origin) (doc_anchors d)))),
                 scriptsCount := Some (int (doc_scripts d)),
                 inlineStylesCount := Some (int (doc_styled d)),
                 hasViewport := Some (checkViewportMeta html),
                 responsive := Some (checkViewportMeta html),
                 hasMixedContent := Some (hasMixedContentWarning html)\<rparr>;
               probed = checkBrokenLinks w (evs @ [Load html]) (doc_anchors d) targetUrl (Some 3)
           in (result1\<lparr>brokenLinks := Some (fst probed)\<rparr>, None, snd probed)))"

definition presenceBlock ::
  "'u world \<Rightarrow> string \<Rightarrow> string option \<Rightarrow> event list \<Rightarrow> AuditResult \<Rightarrow> AuditResult \<times> event list" where
  \<comment> \<open>lines 320--336; a probe that throws leaves the block\<close>
  "presenceBlock w targetUrl origin0 evs result =
     (let origin = (if orEmpty origin0 = [] then orEmpty (safeOrigin w targetUrl) else orEmpty origin0)
      in if origin \<noteq> [] then
           (let evs1 = evs @ [Fetch GET (origin @ ''/robots.txt'')]
            in case fetch w evs GET (origin @ ''/robots.txt'') of
                 Inl err \<Rightarrow> (result, evs1)
               | Inr r \<Rightarrow>
                   (let result1 = result\<lparr>hasRobots := Some (res_ok r)\<rparr>;
                        evs2 = evs1 @ [Fetch GET (origin @ ''/sitemap.xml'')]
                    in case fetch w evs1 GET (origin @ ''/sitemap.xml'') of
                         Inl err \<Rightarrow> (result1, evs2)
                       | Inr s1 \<Rightarrow>
                           (let evs3 = evs2 @ [Fetch GET (origin @ ''/sitemap_index.xml'')]
                            in case fetch w evs2 GET (origin @ ''/sitemap_index.xml'') of
                                 Inl err \<Rightarrow> (result1, evs3)
                               | Inr s2 \<Rightarrow> (result1\<lparr>hasSitemap := Some (res_ok s1 \<or> res_ok s2)\<rparr>, evs3))))
         else (result, evs))"

definition runAudit :: "'u world \<Rightarrow> string \<Rightarrow> AuditResult \<times> event list" where
  \<comment> \<open>the report the promise resolves to, and the calls made to the outside\<close>
  "runAudit w targetUrl =
     (let result = emptyResult targetUrl;
          origin = safeOrigin w targetUrl;
          evs1 = [Fetch GET targetUrl]
      in case fetchBlock w targetUrl result of
           (result1, Inl err) \<Rightarrow> (result1\<lparr>error := Some (exn_message err)\<rparr>, evs1)
         | (result1, Inr html) \<Rightarrow>
             if html = [] then (result1, evs1)
             else
               (case analysisBlock w targetUrl origin html evs1 result1 of
                  (result2, Some err, evs2) \<Rightarrow> (result2\<lparr>error := Some (exn_message err)\<rparr>, evs2)
                | (result2, None, evs2) \<Rightarrow>
                    (let present = presenceBlock w targetUrl origin evs2 result2;
                         redir = checkRedirects w (snd present) targetUrl;
                         result3 = (fst present)\<lparr>redirects := Some (fst redir)\<rparr>
                     in (result3\<lparr>score := Some (calculateScore result3)\<rparr>, snd redir))))"

section \<open>The functions with their exceptions\<close>

text \<open>
  In this section a function returns \<open>Inl\<close> of the value it throws, or its promise rejects
  with, and \<open>Inr\<close> of the value it returns, or its promise resolves to. A \<open>try\<close> block is the
  outcome of its body with the variables as the body leaves them, and its \<open>catch\<close> is the
  case \<open>Inl\<close>; a call outside of every \<open>try\<close> passes \<open>Inl\<close> on. The operations that throw
  are \<open>fetch\<close>, \<open>res.text()\<close>, \<open>cheerio.load\<close> and the \<open>URL\<close> constructor. \<open>fetchBlock\<close> is
  already the body of the first \<open>try\<close>.
\<close>

definition newURL :: "'u world \<Rightarrow> string \<Rightarrow> exn + 'u" where
  \<comment> \<open>\<open>new URL(input)\<close>, which throws a \<open>TypeError\<close> on an input that does not parse\<close>
  "newURL w input = (case URL_new w input of None \<Rightarrow> Inl (Exn ''Invalid URL'') | Some u \<Rightarrow> Inr u)"

definition newURLbase :: "'u world \<Rightarrow> string \<Rightarrow> string \<Rightarrow> exn + 'u" where
  \<comment> \<open>\<open>new URL(href, base)\<close>\<close>
  "newURLbase w href base =
     (case URL_new_base w href base of None \<Rightarrow> Inl (Exn ''Invalid URL'') | Some u \<Rightarrow> Inr u)"

definition safeOriginE :: "'u world \<Rightarrow> string \<Rightarrow> exn + string option" where
  \<comment> \<open>lines 57--63: the \<open>catch\<close> returns \<open>null\<close>\<close>
  "safeOriginE w input =
     (case newURL w input of
        Inl e \<Rightarrow> Inr None
      | Inr u \<Rightarrow> Inr (Some (URL_origin w u)))"

definition probeTry :: "'u world \<Rightarrow> string \<Rightarrow> string \<Rightarrow> probeState \<Rightarrow> (exn + unit) \<times> probeState" where
  \<comment> \<open>the body of the \<open>try\<close> of lines 134--146, with the variables as it leaves them\<close>
  "probeTry w baseUrl href st =
     (case newURLbase w href baseUrl of
        Inl e \<Rightarrow> (Inl e, st)
      | Inr u \<Rightarrow>
          (let target = URL_toString w u;
               st2 = st\<lparr>calls := calls st @ [Fetch HEAD target]\<rparr>
           in case fetch w (calls st) HEAD target of
                Inl e \<Rightarrow> (Inl e, st2)
              | Inr res \<Rightarrow>
                  (Inr (),
                   (if 400 \<le> res_status res
                    then st2\<lparr>links := links st2 @
                           [\<lparr>link_url = slice0 80 href, statusCode = Some (res_status res),
                             broken = (400 \<le> res_status res)\<rparr>]\<rparr>
                    else st2)\<lparr>count := count st2 + 1\<rparr>)))"

definition probeStepE :: "'u world \<Rightarrow> string \<Rightarrow> string \<Rightarrow> probeState \<Rightarrow> (exn + unit) \<times> probeState" where
  \<comment> \<open>lines 132--152: \<open>checked.add\<close>, the \<open>try\<close> and its \<open>catch\<close>\<close>
  "probeStepE w baseUrl href st =
     (case probeTry w baseUrl href (st\<lparr>checked := checked st @ [href]\<rparr>) of
        (Inl err, st2) \<Rightarrow>
          (Inr (),
           st2\<lparr>links := links st2 @ [\<lparr>link_url = slice0 80 href, statusCode = None, broken = True\<rparr>],
               count := count st2 + 1\<rparr>)
      | (Inr x, st2) \<Rightarrow> (Inr x, st2))"

fun probeLoopE ::
  "'u world \<Rightarrow> string \<Rightarrow> nat \<Rightarrow> string option list \<Rightarrow> probeState \<Rightarrow> (exn + unit) \<times> probeState" where
  "probeLoopE w baseUrl limit [] st = (Inr (), st)"
| "probeLoopE w baseUrl limit (a # anchors) st =
     (if count st < limit then
        (let href = orEmpty a
         in if href = [] \<or> startsWith href ''#'' \<or> href \<in> set (checked st)
            then probeLoopE w baseUrl limit anchors st
            else (case probeStepE w baseUrl href st of
                    (Inl e, st1) \<Rightarrow> (Inl e, st1)
                  | (Inr x, st1) \<Rightarrow> probeLoopE w baseUrl limit anchors st1))
      else (Inr (), st))"

definition checkBrokenLinksE ::
  "'u world \<Rightarrow> event list \<Rightarrow> string option list \<Rightarrow> string \<Rightarrow> nat option
     \<Rightarrow> (exn + LinkIssue list) \<times> event list" where
  "checkBrokenLinksE w evs anchors baseUrl limit =
     (case probeLoopE w baseUrl (orElse limit 5) anchors
             \<lparr>links = [], checked = [], count = 0, calls = evs\<rparr> of
        (Inl e, st) \<Rightarrow> (Inl e, calls st)
      | (Inr x, st) \<Rightarrow> (Inr (links st), calls st))"

definition redirectProbeTry ::
  "'u world \<Rightarrow> event list \<Rightarrow> 'u \<Rightarrow> 'u \<Rightarrow> (exn + unit) \<times> RedirectIssue list \<times> event list" where
  \<comment> \<open>the body of the inner \<open>try\<close> of lines 182--190, with the issues and the calls\<close>
  "redirectProbeTry w evs parsed www =
     (case fetch w evs GET (URL_toString w www) of
        Inl e \<Rightarrow> (Inl e, [], evs @ [Fetch GET (URL_toString w www)])
      | Inr res \<Rightarrow>
          (Inr (),
           if res_url res \<noteq> URL_toString w www \<and> \<not> startsWith (res_url res) (URL_origin w parsed)
           then [\<lparr>issue_type = Www, message = ''Inconsistent www redirect behavior''\<rparr>] else [],
           evs @ [Fetch GET (URL_toString w www)]))"

definition redirectsTry ::
  "'u world \<Rightarrow> event list \<Rightarrow> string \<Rightarrow> (exn + unit) \<times> RedirectIssue list \<times> event list" where
  \<comment> \<open>the body of the outer \<open>try\<close> of lines 162--192; the four \<open>new URL(url)\<close> throw alike\<close>
  "redirectsTry w evs targetUrl =
     (case newURL w targetUrl of
        Inl e \<Rightarrow> (Inl e, [], evs)
      | Inr parsed \<Rightarrow>
          (let www = wwwVariant w parsed;
               nonWww = nonWwwVariant w parsed;
               http = httpVariant w parsed
           in if URL_hostname w www \<noteq> URL_hostname w parsed then
                (case redirectProbeTry w evs parsed www of
                   (Inl e, issues, evs1) \<Rightarrow> (Inr (), issues, evs1)
                 | (Inr x, issues, evs1) \<Rightarrow> (Inr x, issues, evs1))
              else (Inr (), [], evs)))"

definition checkRedirectsE ::
  "'u world \<Rightarrow> event list \<Rightarrow> string \<Rightarrow> (exn + RedirectIssue list) \<times> event list" where
  \<comment> \<open>the outer \<open>catch\<close> is empty, and the issues are returned after it\<close>
  "checkRedirectsE w evs targetUrl =
     (case redirectsTry w evs targetUrl of
        (Inl e, issues, evs1) \<Rightarrow> (Inr issues, evs1)
      | (Inr x, issues, evs1) \<Rightarrow> (Inr issues, evs1))"

definition analysisTry ::
  "'u world \<Rightarrow> string \<Rightarrow> string option \<Rightarrow> string \<Rightarrow> event list \<Rightarrow> AuditResult
     \<Rightarrow> (exn + unit) \<times> AuditResult \<times> event list" where
  \<comment> \<open>the body of the second \<open>try\<close> (lines 273--312); \<open>await checkBrokenLinks\<close> rethrows\<close>
  "analysisTry w targetUrl origin html evs result =
     (case cheerio_load w html of
        Inl err \<Rightarrow> (Inl err, result, evs @ [Load html])
      | Inr d \<Rightarrow>
          (let result1 = result\<lparr>
                 title := (if trim (doc_title d) = [] then None else Some (trim (doc_title d))),
                 metaDescription := (if orEmpty (doc_description d) = [] then None else doc_description d),
                 h1Count := Some (int (doc_h1 d)),
                 totalImages := Some (int (length (doc_imgs d))),
                 imgWithoutAlt := Some (int (length (filter (\<lambda>el. noAlt (img_alt el)) (doc_imgs d)))),
                 imageIssues := Some (analyzeImages (doc_imgs d)),
                 totalLinks := Some (int (length (doc_anchors d))),
                 externalLinks := Some (int (length (filter (isExternal w targetUrl origin) (doc_anchors d)))),
                 scriptsCount := Some (int (doc_scripts d)),
                 inlineStylesCount := Some (int (doc_styled d)),
                 hasViewport := Some (checkViewportMeta html),
                 responsive := Some (checkViewportMeta html),
                 hasMixedContent := Some (hasMixedContentWarning html)\<rparr>
           in case checkBrokenLinksE w (evs @ [Load html]) (doc_anchors d) targetUrl (Some 3) of
                (Inl err, evs1) \<Rightarrow> (Inl err, result1, evs1)
              | (Inr found, evs1) \<Rightarrow> (Inr (), result1\<lparr>brokenLinks := Some found\<rparr>, evs1)))"

definition presenceTry ::
  "'u world \<Rightarrow> string \<Rightarrow> event list \<Rightarrow> AuditResult \<Rightarrow> (exn + unit) \<times> AuditResult \<times> event list" where
  \<comment> \<open>the body of the third \<open>try\<close> (lines 325--333)\<close>
  "presenceTry w origin evs result =
     (if origin \<noteq> [] then
        (let evs1 = evs @ [Fetch GET (origin @ ''/robots.txt'')]
         in case fetch w evs GET (origin @ ''/robots.txt'') of
              Inl err \<Rightarrow> (Inl err, result, evs1)
            | Inr r \<Rightarrow>
                (let result1 = result\<lparr>hasRobots := Some (res_ok r)\<rparr>;
                     evs2 = evs1 @ [Fetch GET (origin @ ''/sitemap.xml'')]
                 in case fetch w evs1 GET (origin @ ''/sitemap.xml'') of
                      Inl err \<Rightarrow> (Inl err, result1, evs2)
                    | Inr s1 \<Rightarrow>
                        (let evs3 = evs2 @ [Fetch GET (origin @ ''/sitemap_index.xml'')]
                         in case fetch w evs2 GET (origin @ ''/sitemap_index.xml'') of
                              Inl err \<Rightarrow> (Inl err, result1, evs3)
                            | Inr s2 \<Rightarrow>
                                (Inr (), result1\<lparr>hasSitemap := Some (res_ok s1 \<or> res_ok s2)\<rparr>, evs3))))
      else (Inr (), result, evs))"

definition runAuditE :: "'u world \<Rightarrow> string \<Rightarrow> (exn + AuditResult) \<times> event list" where
  \<comment> \<open>\<open>Inl\<close>: the promise rejects; \<open>Inr\<close>: it resolves to the report\<close>
  "runAuditE w targetUrl =
     (let result = emptyResult targetUrl;
          evs1 = [Fetch GET targetUrl]
      in case safeOriginE w targetUrl of
           Inl e \<Rightarrow> (Inl e, [])
         | Inr origin \<Rightarrow>
             (case fetchBlock w targetUrl result of
                (result1, Inl err) \<Rightarrow> (Inr (result1\<lparr>error := Some (exn_message err)\<rparr>), evs1)
              | (result1, Inr html) \<Rightarrow>
                  if html = [] then (Inr result1, evs1)
                  else
                    (case analysisTry w targetUrl origin html evs1 result1 of
                       (Inl err, result2, evs2) \<Rightarrow>
                         (Inr (result2\<lparr>error := Some (exn_message err)\<rparr>), evs2)
                     | (Inr x, result2, evs2) \<Rightarrow>
                         (case (if orEmpty origin = []
                                then (case safeOriginE w targetUrl of
                                        Inl e \<Rightarrow> Inl e
                                      | Inr again \<Rightarrow> Inr (orEmpty again))
                                else Inr (orEmpty origin)) of
                            Inl e \<Rightarrow> (Inl e, evs2)
                          | Inr origin2 \<Rightarrow>
                              (case presenceTry w origin2 evs2 result2 of
                                 (caught, result3, evs3) \<Rightarrow>
                                   (case checkRedirectsE w evs3 targetUrl of
                                      (Inl e, evs4) \<Rightarrow> (Inl e, evs4)
                                    | (Inr found, evs4) \<Rightarrow>
                                        (let result4 = result3\<lparr>redirects := Some found\<rparr>
                                         in (Inr (result4\<lparr>score := Some (calculateScore result4)\<rparr>),
                                             evs4))))))))"

section \<open>Auxiliary definitions\<close>

text \<open>
  \<open>fullRun\<close> is \<open>runAudit\<close> on the path where the fetch gave the non-empty text \<open>html\<close>
  and \<open>cheerio.load\<close> returned (lines 273--344).
\<close>

definition fullRun :: "'u world \<Rightarrow> string \<Rightarrow> string \<Rightarrow> AuditResult \<times> event list" where
  "fullRun w u html =
     (let r1 = fst (fetchBlock w u (emptyResult u));
          a = analysisBlock w u (safeOrigin w u) html [Fetch GET u] r1;
          p = presenceBlock w u (safeOrigin w u) (snd (snd a)) (fst a);
          rd = checkRedirects w (snd p) u;
          r3 = (fst p)\<lparr>redirects := Some (fst rd)\<rparr>
      in (r3\<lparr>score := Some (calculateScore r3)\<rparr>, snd rd))"


subsection \<open>A small concrete environment\<close>

text \<open>
  URL objects with three components; the constructor knows the absolute URLs of a table and
  resolves a reference that starts with \<open>/\<close> against the base. It throws on any other input.
\<close>

datatype mockURL = MockURL (m_protocol: string) (m_host: string) (m_path: string)

definition mockTable :: "(string \<times> mockURL) list" where
  "mockTable =
     [(''https://example.com/'', MockURL ''https:'' ''example.com'' ''/''),
      (''https://other.test/x'', MockURL ''https:'' ''other.test'' ''/x'')]"

definition mockResolve :: "string \<Rightarrow> string \<Rightarrow> mockURL option" where
  "mockResolve href base =
     (case map_of mockTable base of
        None \<Rightarrow> None
      | Some b \<Rightarrow>
          if startsWith href ''/'' then Some (MockURL (m_protocol b) (m_host b) href)
          else map_of mockTable href)"

definition mockString :: "mockURL \<Rightarrow> string" where
  "mockString u = m_protocol u @ ''//'' @ m_host u @ m_path u"

definition mockWorld ::
  "(event list \<Rightarrow> meth \<Rightarrow> string \<Rightarrow> exn + response) \<Rightarrow> (string \<Rightarrow> exn + document) \<Rightarrow> mockURL world" where
  "mockWorld net parser =
     \<lparr>fetch = net,
      now = (\<lambda>evs. 1200 * int (length evs)),
      random = 1 / 2,
      cheerio_load = parser,
      URL_new = map_of mockTable,
      URL_new_base = mockResolve,
      URL_origin = (\<lambda>u. m_protocol u @ ''//'' @ m_host u),
      URL_hostname = m_host,
      URL_protocol = m_protocol,
      URL_toString = mockString,
      URL_set_hostname = (\<lambda>u h. MockURL (m_protocol u) h (m_path u)),
      URL_set_protocol = (\<lambda>u p. MockURL p (m_host u) (m_path u))\<rparr>"

definition mockResponse :: "int \<Rightarrow> string \<Rightarrow> string \<Rightarrow> response" where
  "mockResponse code final body =
     \<lparr>res_status = code, res_url = final, res_header = (\<lambda>name. None), res_text = Inr body\<rparr>"

definition netDown :: "event list \<Rightarrow> meth \<Rightarrow> string \<Rightarrow> exn + response" where
  \<comment> \<open>every request fails\<close>
  "netDown evs m u = Inl (Exn ''fetch failed'')"

definition netServing :: "string \<Rightarrow> event list \<Rightarrow> meth \<Rightarrow> string \<Rightarrow> exn + response" where
  \<comment> \<open>every request is answered 200 with the same body, without a redirect\<close>
  "netServing body evs m u = Inr (mockResponse 200 u body)"

definition mockDoc :: "string option list \<Rightarrow> img list \<Rightarrow> document" where
  "mockDoc as imgs =
     \<lparr>doc_title = ''Home'', doc_description = None, doc_h1 = 1, doc_imgs = imgs,
      doc_anchors = as, doc_scripts = 0, doc_styled = 0\<rparr>"

definition netElsewhere :: "event list \<Rightarrow> meth \<Rightarrow> string \<Rightarrow> exn + response" where
  \<comment> \<open>every request is answered 200 and ends, after redirects, at another site\<close>
  "netElsewhere evs m u = Inr (mockResponse 200 ''https://other.test/x'' ''<html></html>'')"

definition netFlaky :: "event list \<Rightarrow> meth \<Rightarrow> string \<Rightarrow> exn + response" where
  \<comment> \<open>every request is answered 200, but the one for \<open>/sitemap_index.xml\<close> fails\<close>
  "netFlaky evs m u =
     (if u = ''https://example.com/sitemap_index.xml'' then Inl (Exn ''socket hang up'')
      else Inr (mockResponse 200 u ''<html></html>''))"

definition netCut :: "event list \<Rightarrow> meth \<Rightarrow> string \<Rightarrow> exn + response" where
  \<comment> \<open>every request is answered 200, and the connection breaks while the body is read\<close>
  "netCut evs m u =
     Inr \<lparr>res_status = 200, res_url = u, res_header = (\<lambda>name. None), res_text = Inl (Exn ''terminated'')\<rparr>"

definition netEmpty :: "event list \<Rightarrow> meth \<Rightarrow> string \<Rightarrow> exn + response" where
  \<comment> \<open>every request is answered 200 with an empty body\<close>
  "netEmpty evs m u = Inr (mockResponse 200 u [])"

definition netGone :: "event list \<Rightarrow> meth \<Rightarrow> string \<Rightarrow> exn + response" where
  \<comment> \<open>every request is answered 404\<close>
  "netGone evs m u = Inr (mockResponse 404 u ''<html></html>'')"

text \<open>
  \<open>firstNew seen xs\<close> is \<open>xs\<close> without the elements of \<open>seen\<close> and without repetitions,
  every element at its first place.
\<close>

fun firstNew :: "'a list \<Rightarrow> 'a list \<Rightarrow> 'a list" where
  "firstNew seen [] = []"
| "firstNew seen (x # xs) = (if x \<in> set seen then firstNew seen xs else x # firstNew (seen @ [x]) xs)"

section \<open>Double arithmetic\<close>

lemma pow2_powr: "pow2 k = 2 powr (of_int k)"
proof (cases "0 \<le> k")
  case True
  then have "2 powr (of_int k) = (2::real) powr (real (nat k))" by simp
  also have "\<dots> = 2 ^ nat k" by (simp add: powr_realpow)
  finally show ?thesis using True by (simp add: pow2_def)
next
  case False
  then have "(2::real) powr (of_int k) = 2 powr (- real (nat (- k)))" by simp
  also have "\<dots> = 1 / 2 powr (real (nat (- k)))" by (simp add: powr_minus divide_inverse)
  also have "\<dots> = 1 / 2 ^ nat (- k)" by (simp add: powr_realpow)
  finally show ?thesis using False by (simp add: pow2_def)
qed

lemma pow2_pos: "0 < pow2 k"
  by (simp add: pow2_powr)

lemma pow2_le_iff: "pow2 a \<le> pow2 b \<longleftrightarrow> a \<le> b"
  by (simp add: pow2_powr)

lemma pow2_less_iff: "pow2 a < pow2 b \<longleftrightarrow> a < b"
  by (simp add: pow2_powr)

lemma pow2_add: "pow2 (a + b) = pow2 a * pow2 b"
  by (simp add: pow2_powr powr_add)

lemma pow2_nat: "0 \<le> k \<Longrightarrow> pow2 k = of_int (2 ^ nat k)"
  by (simp add: pow2_def)

lemma pow2_neg: "pow2 (- k) = 1 / pow2 k"
  by (simp add: pow2_powr powr_minus divide_inverse)

lemma expoFrom_unique:
  "pow2 e \<le> a \<Longrightarrow> a < pow2 (e + 1) \<Longrightarrow> k - int n \<le> e \<Longrightarrow> e \<le> k \<Longrightarrow> expoFrom n k a = e"
proof (induction n arbitrary: k)
  case 0
  then show ?case by simp
next
  case (Suc n)
  show ?case
  proof (cases "pow2 k \<le> a")
    case True
    then have "pow2 k < pow2 (e + 1)" using Suc.prems(2) by simp
    then have "k \<le> e" by (simp add: pow2_less_iff)
    then show ?thesis using True Suc.prems(4) by simp
  next
    case False
    then have "pow2 e < pow2 k" using Suc.prems(1) by simp
    then have "e \<le> k - 1" by (simp add: pow2_less_iff)
    then show ?thesis using False Suc.IH [of "k - 1"] Suc.prems by simp
  qed
qed

lemma expoFrom_bounds: "k - int n \<le> expoFrom n k a \<and> expoFrom n k a \<le> k"
proof (induction n arbitrary: k)
  case 0
  then show ?case by simp
next
  case (Suc n)
  show ?case using Suc.IH [of "k - 1"] by simp
qed

lemma expoFrom_le: "expoFrom n k a = k - int n \<or> pow2 (expoFrom n k a) \<le> a"
proof (induction n arbitrary: k)
  case 0
  then show ?case by simp
next
  case (Suc n)
  show ?case using Suc.IH [of "k - 1"] by auto
qed

lemma expo_unique:
  "pow2 e \<le> \<bar>x\<bar> \<Longrightarrow> \<bar>x\<bar> < pow2 (e + 1) \<Longrightarrow> - 1075 \<le> e \<Longrightarrow> e \<le> 1023 \<Longrightarrow> expo x = e"
  unfolding expo_def by (rule expoFrom_unique) simp_all

lemma expo_le: "expo x = - 1075 \<or> pow2 (expo x) \<le> \<bar>x\<bar>"
  unfolding expo_def using expoFrom_le [of 2098 1023 "\<bar>x\<bar>"] by simp

lemma expo_less: "\<bar>x\<bar> < pow2 k \<Longrightarrow> - 1075 < k \<Longrightarrow> expo x < k"
proof -
  assume a: "\<bar>x\<bar> < pow2 k" and k: "- 1075 < k"
  from expo_le [of x] show ?thesis
  proof
    assume "expo x = - 1075" then show ?thesis using k by simp
  next
    assume "pow2 (expo x) \<le> \<bar>x\<bar>"
    then have "pow2 (expo x) < pow2 k" using a by simp
    then show ?thesis by (simp add: pow2_less_iff)
  qed
qed

lemma ulp_pos: "0 < ulp x"
  by (simp add: ulp_def pow2_pos)

lemma roundEven_int: "roundEven (of_int n) = n"
  by (simp add: roundEven_def)

lemma roundEven_nonneg: "0 \<le> y \<Longrightarrow> 0 \<le> roundEven y"
  by (auto simp: roundEven_def Let_def)

lemma roundEven_nonpos: "y \<le> 0 \<Longrightarrow> roundEven y \<le> 0"
proof -
  assume y: "y \<le> 0"
  show ?thesis
  proof (cases "\<lfloor>y\<rfloor> = 0")
    case True
    then have "0 \<le> y" by (metis of_int_0 of_int_floor_le)
    then have "y = 0" using y by simp
    then show ?thesis by (simp add: roundEven_def)
  next
    case False
    have "\<lfloor>y\<rfloor> \<le> 0" using y by linarith
    then have "\<lfloor>y\<rfloor> + 1 \<le> 0" using False by arith
    then show ?thesis by (auto simp: roundEven_def Let_def)
  qed
qed

lemma roundEven_near:
  "of_int n - 1 / 2 < y \<Longrightarrow> y < of_int n + 1 / 2 \<Longrightarrow> roundEven y = n"
proof -
  assume a: "of_int n - 1 / 2 < y" and b: "y < of_int n + 1 / 2"
  have "\<lfloor>y\<rfloor> = n \<or> \<lfloor>y\<rfloor> = n - 1" using a b by linarith
  then show ?thesis
  proof
    assume f: "\<lfloor>y\<rfloor> = n"
    then have "y - of_int \<lfloor>y\<rfloor> < 1 / 2" using b by simp
    then show ?thesis using f by (simp add: roundEven_def Let_def)
  next
    assume f: "\<lfloor>y\<rfloor> = n - 1"
    then have "1 / 2 < y - of_int \<lfloor>y\<rfloor>" using a by simp
    then show ?thesis using f by (simp add: roundEven_def Let_def)
  qed
qed

lemma roundEven_le_half: "y < of_int n + 1 / 2 \<Longrightarrow> roundEven y \<le> n"
proof -
  assume b: "y < of_int n + 1 / 2"
  have f: "\<lfloor>y\<rfloor> \<le> n" using b by linarith
  show ?thesis
  proof (cases "\<lfloor>y\<rfloor> = n")
    case True
    then have "y - of_int \<lfloor>y\<rfloor> < 1 / 2" using b by simp
    then show ?thesis using True by (simp add: roundEven_def Let_def)
  next
    case False
    then have "\<lfloor>y\<rfloor> + 1 \<le> n" using f by simp
    then show ?thesis using f by (auto simp: roundEven_def Let_def)
  qed
qed

lemma roundEven_le: "y \<le> of_int n \<Longrightarrow> roundEven y \<le> n"
  by (rule roundEven_le_half) simp

lemma roundEven_abs: "\<bar>of_int (roundEven y) - y\<bar> \<le> 1 / 2"
  unfolding roundEven_def Let_def by (auto; linarith)

lemma fl_nonneg: "0 \<le> x \<Longrightarrow> 0 \<le> fl x"
  unfolding fl_def using ulp_pos [of x] roundEven_nonneg [of "x / ulp x"] by simp

lemma fl_nonpos: "x \<le> 0 \<Longrightarrow> fl x \<le> 0"
  unfolding fl_def using ulp_pos [of x] roundEven_nonpos [of "x / ulp x"]
  by (simp add: divide_nonpos_pos mult_nonneg_nonpos)


lemma pow2_nonpos: "m \<le> 0 \<Longrightarrow> pow2 m = 1 / 2 ^ nat (- m)"
  by (cases "m = 0") (simp_all add: pow2_def)

lemma fl_int:
  assumes "\<bar>n\<bar> < 2 ^ 53"
  shows "fl (of_int n) = of_int n"
proof -
  let ?x = "of_int n :: real"
  have "\<bar>?x\<bar> < pow2 53"
  proof -
    have "\<bar>?x\<bar> = of_int \<bar>n\<bar>" by simp
    also have "\<dots> < of_int (2 ^ 53)" using assms by (simp only: of_int_less_iff)
    also have "\<dots> = pow2 53" by (simp add: pow2_def)
    finally show ?thesis .
  qed
  then have e: "expo ?x < 53" by (rule expo_less) simp
  define m where "m = max (expo ?x) (- 1022) - 52"
  have m: "m \<le> 0" using e by (simp add: m_def)
  define j where "j = nat (- m)"
  have u: "ulp ?x = 1 / 2 ^ j"
    unfolding ulp_def m_def [symmetric] j_def using m by (rule pow2_nonpos)
  have q: "?x / ulp ?x = of_int (n * 2 ^ j)" by (simp add: u)
  have "fl ?x = ulp ?x * of_int (roundEven (?x / ulp ?x))" by (simp add: fl_def)
  also have "\<dots> = ulp ?x * of_int (roundEven (of_int (n * 2 ^ j)))" by (simp only: q)
  also have "\<dots> = ulp ?x * of_int (n * 2 ^ j)" by (simp only: roundEven_int)
  also have "\<dots> = ?x" by (simp add: u)
  finally show ?thesis .
qed

lemma fl_eval:
  assumes "pow2 e \<le> \<bar>x\<bar>" "\<bar>x\<bar> < pow2 (e + 1)" "- 1022 \<le> e" "e \<le> 1023"
    and "of_int m - 1 / 2 < x / pow2 (e - 52)" "x / pow2 (e - 52) < of_int m + 1 / 2"
  shows "fl x = pow2 (e - 52) * of_int m"
proof -
  have e: "expo x = e" using assms(1-4) by (intro expo_unique) simp_all
  have u: "ulp x = pow2 (e - 52)" using assms(3) by (simp add: ulp_def e)
  show ?thesis unfolding fl_def u using roundEven_near [OF assms(5,6)] by simp
qed

lemma double_below_one:
  assumes "0 \<le> r" "r < 1" "fl r = r"
  shows "r \<le> 1 - 1 / 2 ^ 53"
proof (cases "r < 1 / 2")
  case True
  then show ?thesis by simp
next
  case False
  have "pow2 (- 1) \<le> \<bar>r\<bar>" using False assms(1) by (simp add: pow2_def)
  moreover have "\<bar>r\<bar> < pow2 (- 1 + 1)" using assms(1,2) by (simp add: pow2_def)
  ultimately have e: "expo r = - 1" by (intro expo_unique) simp_all
  have u: "ulp r = 1 / 2 ^ 53" by (simp add: ulp_def e pow2_def)
  define k where "k = roundEven (r / ulp r)"
  have "fl r = ulp r * of_int k" by (simp add: fl_def k_def)
  then have r: "r = of_int k / 2 ^ 53"
    using assms(3) by (simp add: u)
  have "of_int k < (2 ^ 53 :: real)" using assms(2) unfolding r by simp
  then have "k < 2 ^ 53" by (metis of_int_less_iff of_int_numeral of_int_power)
  then have "k \<le> 2 ^ 53 - 1" by simp
  then have "(of_int k :: real) \<le> of_int (2 ^ 53 - 1)" by (simp only: of_int_le_iff)
  then have "(of_int k :: real) \<le> 2 ^ 53 - 1" by simp
  then have "of_int k / 2 ^ 53 \<le> ((2 ^ 53 - 1) / 2 ^ 53 :: real)"
    by (simp add: divide_right_mono)
  then show ?thesis unfolding r by (simp add: field_simps)
qed

lemma fl_jitter:
  assumes "0 \<le> r" "r < 1" "fl r = r"
  shows "0 \<le> fl (r * 800) \<and> fl (r * 800) < 800"
proof -
  let ?y = "r * 800"
  have y0: "0 \<le> ?y" using assms(1) by simp
  have yb: "?y \<le> 800 - 800 / 2 ^ 53" using double_below_one [OF assms] by simp
  have lo: "0 \<le> fl ?y" using y0 by (rule fl_nonneg)
  have hi: "fl ?y < 800"
  proof (cases "?y < 512")
    case True
    have "\<bar>?y\<bar> < pow2 9" using True y0 by (simp add: pow2_def)
    then have e: "expo ?y < 9" by (rule expo_less) simp
    define m where "m = max (expo ?y) (- 1022) - 52"
    have m: "m \<le> 0" using e by (simp add: m_def)
    define j where "j = nat (- m)"
    have u: "ulp ?y = 1 / 2 ^ j"
      unfolding ulp_def m_def [symmetric] j_def using m by (rule pow2_nonpos)
    have "?y / ulp ?y \<le> of_int (512 * 2 ^ j)" using True by (simp add: u)
    then have "roundEven (?y / ulp ?y) \<le> 512 * 2 ^ j" by (rule roundEven_le)
    then have "(of_int (roundEven (?y / ulp ?y)) :: real) \<le> of_int (512 * 2 ^ j)"
      by (simp only: of_int_le_iff)
    then have "ulp ?y * of_int (roundEven (?y / ulp ?y)) \<le> ulp ?y * of_int (512 * 2 ^ j)"
      using ulp_pos [of ?y] by (intro mult_left_mono) simp_all
    then have "fl ?y \<le> ulp ?y * of_int (512 * 2 ^ j)" by (simp add: fl_def)
    also have "\<dots> = 512" by (simp add: u)
    finally have "fl ?y \<le> 512" .
    then show ?thesis by simp
  next
    case False
    have "pow2 9 \<le> \<bar>?y\<bar>" using False by (simp add: pow2_def)
    moreover have "\<bar>?y\<bar> < pow2 (9 + 1)" using yb y0 by (simp add: pow2_def)
    ultimately have e: "expo ?y = 9" by (intro expo_unique) simp_all
    have u: "ulp ?y = 1 / 2 ^ 43" by (simp add: ulp_def e pow2_def)
    have "?y / ulp ?y \<le> (800 - 800 / 2 ^ 53) * 2 ^ 43" using yb by (simp add: u)
    also have "\<dots> < of_int (800 * 2 ^ 43 - 1) + 1 / 2" by simp
    finally have "roundEven (?y / ulp ?y) \<le> 800 * 2 ^ 43 - 1" by (rule roundEven_le_half)
    then have "(of_int (roundEven (?y / ulp ?y)) :: real) \<le> of_int (800 * 2 ^ 43 - 1)"
      by (simp only: of_int_le_iff)
    then have "ulp ?y * of_int (roundEven (?y / ulp ?y)) \<le> ulp ?y * of_int (800 * 2 ^ 43 - 1)"
      using ulp_pos [of ?y] by (intro mult_left_mono) simp_all
    then have "fl ?y \<le> ulp ?y * of_int (800 * 2 ^ 43 - 1)" by (simp add: fl_def)
    also have "\<dots> < 800" by (simp add: u)
    finally show ?thesis .
  qed
  show ?thesis using lo hi by simp
qed

lemma fl_numeral: "(numeral k :: int) < 2 ^ 53 \<Longrightarrow> fl (numeral k) = numeral k"
  using fl_int [of "numeral k"] by simp

lemma fl_half: "fl (1 / 2) = 1 / 2"
  using fl_eval [of "- 1" "1 / 2" "2 ^ 52"] by (simp add: pow2_def)

section \<open>The paths of runAudit\<close>

lemma fetchBlock_Inl:
  "fetch w [] GET u = Inl e \<Longrightarrow> fetchBlock w u r = (r, Inl e)"
  by (simp add: fetchBlock_def Let_def)

lemma fetchBlock_text_Inl:
  "fetch w [] GET u = Inr res \<Longrightarrow> res_text res = Inl e \<Longrightarrow>
   snd (fetchBlock w u r) = Inl e"
  by (simp add: fetchBlock_def Let_def)

lemma fetchBlock_text_Inr:
  "fetch w [] GET u = Inr res \<Longrightarrow> res_text res = Inr html \<Longrightarrow>
   snd (fetchBlock w u r) = Inr html"
  by (simp add: fetchBlock_def Let_def)

lemma fetchBlock_keeps:
  "url (fst (fetchBlock w u r)) = url r"
  "error (fst (fetchBlock w u r)) = error r"
  "score (fst (fetchBlock w u r)) = score r"
  "hasRobots (fst (fetchBlock w u r)) = hasRobots r"
  "hasSitemap (fst (fetchBlock w u r)) = hasSitemap r"
  "brokenLinks (fst (fetchBlock w u r)) = brokenLinks r"
  "totalLinks (fst (fetchBlock w u r)) = totalLinks r"
  by (simp_all add: fetchBlock_def Let_def split: sum.splits)

lemma analysisBlock_Inl:
  "cheerio_load w html = Inl e \<Longrightarrow>
   analysisBlock w u orig html evs r = (r, Some e, evs @ [Load html])"
  by (simp add: analysisBlock_def)

lemma analysisBlock_keeps:
  "url (fst (analysisBlock w u orig html evs r)) = url r"
  "error (fst (analysisBlock w u orig html evs r)) = error r"
  "score (fst (analysisBlock w u orig html evs r)) = score r"
  "ttfbMs (fst (analysisBlock w u orig html evs r)) = ttfbMs r"
  "fcpMs (fst (analysisBlock w u orig html evs r)) = fcpMs r"
  "lcpMs (fst (analysisBlock w u orig html evs r)) = lcpMs r"
  "hasRobots (fst (analysisBlock w u orig html evs r)) = hasRobots r"
  "hasSitemap (fst (analysisBlock w u orig html evs r)) = hasSitemap r"
  by (simp_all add: analysisBlock_def Let_def split: sum.splits)

lemma presenceBlock_shape:
  "\<exists>a b. fst (presenceBlock w u orig evs r) = r\<lparr>hasRobots := a, hasSitemap := b\<rparr>"
proof -
  define origin where "origin = (if orEmpty orig = [] then orEmpty (safeOrigin w u) else orEmpty orig)"
  have triv: "\<exists>a b. r = r\<lparr>hasRobots := a, hasSitemap := b\<rparr>"
    by (rule exI [of _ "hasRobots r"], rule exI [of _ "hasSitemap r"]) simp
  have one: "\<exists>a b. r\<lparr>hasRobots := x\<rparr> = r\<lparr>hasRobots := a, hasSitemap := b\<rparr>" for x
    by (rule exI [of _ x], rule exI [of _ "hasSitemap r"]) simp
  have two: "\<exists>a b. r\<lparr>hasRobots := x, hasSitemap := y\<rparr> = r\<lparr>hasRobots := a, hasSitemap := b\<rparr>" for x y
    by blast
  show ?thesis
  proof (cases "origin = []")
    case True
    then show ?thesis using triv by (simp add: presenceBlock_def origin_def Let_def)
  next
    case False
    note o = this
    show ?thesis
    proof (cases "fetch w evs GET (origin @ ''/robots.txt'')")
      case (Inl e)
      then show ?thesis using o triv by (simp add: presenceBlock_def origin_def Let_def)
    next
      case (Inr rb)
      note f1 = this
      show ?thesis
      proof (cases "fetch w (evs @ [Fetch GET (origin @ ''/robots.txt'')]) GET (origin @ ''/sitemap.xml'')")
        case (Inl e)
        then show ?thesis using o f1 one [of "Some (res_ok rb)"]
          by (simp add: presenceBlock_def origin_def Let_def)
      next
        case (Inr s1)
        note f2 = this
        show ?thesis
        proof (cases "fetch w (evs @ [Fetch GET (origin @ ''/robots.txt''), Fetch GET (origin @ ''/sitemap.xml'')]) GET (origin @ ''/sitemap_index.xml'')")
          case (Inl e)
          then show ?thesis using o f1 f2 one [of "Some (res_ok rb)"]
            by (simp add: presenceBlock_def origin_def Let_def)
        next
          case (Inr s2)
          then show ?thesis using o f1 f2 two [where x = "Some (res_ok rb)" and y = "Some (res_ok s1 \<or> res_ok s2)"]
            by (simp add: presenceBlock_def origin_def Let_def)
        qed
      qed
    qed
  qed
qed

lemma runAudit_fetch_Inl:
  "fetch w [] GET u = Inl e \<Longrightarrow>
   runAudit w u = ((emptyResult u)\<lparr>error := Some (exn_message e)\<rparr>, [Fetch GET u])"
  by (simp add: runAudit_def Let_def fetchBlock_Inl)

lemma runAudit_text_Inl:
  "fetch w [] GET u = Inr res \<Longrightarrow> res_text res = Inl e \<Longrightarrow>
   runAudit w u = ((fst (fetchBlock w u (emptyResult u)))\<lparr>error := Some (exn_message e)\<rparr>, [Fetch GET u])"
  using fetchBlock_text_Inl [of w u res e "emptyResult u"]
  by (cases "fetchBlock w u (emptyResult u)") (simp add: runAudit_def Let_def)

lemma runAudit_empty_body:
  "fetch w [] GET u = Inr res \<Longrightarrow> res_text res = Inr [] \<Longrightarrow>
   runAudit w u = (fst (fetchBlock w u (emptyResult u)), [Fetch GET u])"
  using fetchBlock_text_Inr [of w u res "[]" "emptyResult u"]
  by (cases "fetchBlock w u (emptyResult u)") (simp add: runAudit_def Let_def)

lemma runAudit_load_Inl:
  "fetch w [] GET u = Inr res \<Longrightarrow> res_text res = Inr html \<Longrightarrow> html \<noteq> [] \<Longrightarrow>
   cheerio_load w html = Inl e \<Longrightarrow>
   runAudit w u = ((fst (fetchBlock w u (emptyResult u)))\<lparr>error := Some (exn_message e)\<rparr>,
                   [Fetch GET u, Load html])"
  using fetchBlock_text_Inr [of w u res html "emptyResult u"]
  by (cases "fetchBlock w u (emptyResult u)") (simp add: runAudit_def Let_def analysisBlock_Inl)

lemma runAudit_full:
  "fetch w [] GET u = Inr res \<Longrightarrow> res_text res = Inr html \<Longrightarrow> html \<noteq> [] \<Longrightarrow>
   cheerio_load w html = Inr d \<Longrightarrow>
   runAudit w u = fullRun w u html"
  using fetchBlock_text_Inr [of w u res html "emptyResult u"]
  apply (cases "fetchBlock w u (emptyResult u)")
  apply (simp add: runAudit_def fullRun_def Let_def)
  apply (simp add: analysisBlock_def Let_def)
  done

lemma fetchBlock_metrics:
  assumes "fetch w [] GET u = Inr res" "res_text res = Inr html"
  shows "ttfbMs (fst (fetchBlock w u r)) =
           Some (round (ttfb (estimateMetrics (now w [Fetch GET u] - now w []) (length html) (random w))))"
    and "fcpMs (fst (fetchBlock w u r)) =
           Some (round (fcp (estimateMetrics (now w [Fetch GET u] - now w []) (length html) (random w))))"
    and "lcpMs (fst (fetchBlock w u r)) =
           Some (round (lcp (estimateMetrics (now w [Fetch GET u] - now w []) (length html) (random w))))"
  using assms by (simp_all add: fetchBlock_def Let_def)

lemma analysisBlock_Inr:
  assumes "cheerio_load w html = Inr d"
  shows "totalImages (fst (analysisBlock w u orig html evs r)) = Some (int (length (doc_imgs d)))"
    and "imageIssues (fst (analysisBlock w u orig html evs r)) = Some (analyzeImages (doc_imgs d))"
    and "totalLinks (fst (analysisBlock w u orig html evs r)) = Some (int (length (doc_anchors d)))"
    and "externalLinks (fst (analysisBlock w u orig html evs r)) =
           Some (int (length (filter (isExternal w u orig) (doc_anchors d))))"
    and "brokenLinks (fst (analysisBlock w u orig html evs r)) =
           Some (fst (checkBrokenLinks w (evs @ [Load html]) (doc_anchors d) u (Some 3)))"
    and "fst (snd (analysisBlock w u orig html evs r)) = None"
    and "snd (snd (analysisBlock w u orig html evs r)) =
           snd (checkBrokenLinks w (evs @ [Load html]) (doc_anchors d) u (Some 3))"
  using assms by (simp_all add: analysisBlock_def Let_def)

section \<open>The score\<close>

lemma if_sub: "(if c then (s::int) - d else s) = s - (if c then d else 0)"
  by simp

lemma calculateScore_closed:
  "calculateScore r =
     max 0 (100
       - (if truthy (isHttps r) then 0 else 15)
       - (if truthy (hasViewport r) then 0 else 10)
       - (if 0 < orElse (imgWithoutAlt r) 0 then min 5 (orElse (imgWithoutAlt r) 0) else 0)
       - min 10 (2 * int (length (orElse (brokenLinks r) [])))
       - (if truthy (hasMixedContent r) then 10 else 0)
       - (if 3000 < orElse (responseTimeMs r) 0 then 5 else 0))"
proof -
  have b: "(if 0 < orElse (map_option (\<lambda>l. int (length l)) (brokenLinks r)) 0
            then min 10 (orElse (map_option (\<lambda>l. int (length l)) (brokenLinks r)) 0 * 2) else 0)
           = min 10 (2 * int (length (orElse (brokenLinks r) [])))"
    by (cases "brokenLinks r") (simp_all add: orElse_def mult.commute)
  have n: "\<And>c (x::int) y. (if \<not> c then x else y) = (if c then y else x)" by simp
  show ?thesis
    unfolding calculateScore_def
    by (simp only: Let_def if_sub b n)
qed

lemma calculateScore_score: "calculateScore (r\<lparr>score := s\<rparr>) = calculateScore r"
proof -
  have f: "isHttps (r\<lparr>score := s\<rparr>) = isHttps r" "hasViewport (r\<lparr>score := s\<rparr>) = hasViewport r"
    "imgWithoutAlt (r\<lparr>score := s\<rparr>) = imgWithoutAlt r" "brokenLinks (r\<lparr>score := s\<rparr>) = brokenLinks r"
    "hasMixedContent (r\<lparr>score := s\<rparr>) = hasMixedContent r"
    "responseTimeMs (r\<lparr>score := s\<rparr>) = responseTimeMs r"
    by simp_all
  show ?thesis unfolding calculateScore_def by (simp only: f)
qed


lemma calculateScore_ge_45: "45 \<le> calculateScore r"
proof -
  define d1 :: int where "d1 = (if truthy (isHttps r) then 0 else 15)"
  define d2 :: int where "d2 = (if truthy (hasViewport r) then 0 else 10)"
  define d3 :: int where
    "d3 = (if 0 < orElse (imgWithoutAlt r) 0 then min 5 (orElse (imgWithoutAlt r) 0) else 0)"
  define d4 :: int where "d4 = min 10 (2 * int (length (orElse (brokenLinks r) [])))"
  define d5 :: int where "d5 = (if truthy (hasMixedContent r) then 10 else 0)"
  define d6 :: int where "d6 = (if 3000 < orElse (responseTimeMs r) 0 then 5 else 0)"
  have c: "calculateScore r = max 0 (100 - d1 - d2 - d3 - d4 - d5 - d6)"
    unfolding d1_def d2_def d3_def d4_def d5_def d6_def by (rule calculateScore_closed)
  have n: "d1 \<le> 15" "d2 \<le> 10" "d3 \<le> 5" "d4 \<le> 10" "d5 \<le> 10" "d6 \<le> 5"
    by (simp_all add: d1_def d2_def d3_def d4_def d5_def d6_def)
  show ?thesis unfolding c using n by simp
qed

lemma fetchBlock_text_Inl_report:
  "fetch w [] GET u = Inr res \<Longrightarrow> res_text res = Inl e \<Longrightarrow>
   fst (fetchBlock w u r) =
     r\<lparr>status := Some (res_status res),
       responseTimeMs := Some (now w [Fetch GET u] - now w []),
       contentType := res_header res ''content-type'',
       isHttps := Some (startsWith (res_url res) ''https:''),
       hasHsts := Some (orEmpty (res_header res ''strict-transport-security'') \<noteq> [])\<rparr>"
  by (simp add: fetchBlock_def Let_def)

lemma presenceBlock_indep:
  "snd (presenceBlock w u orig evs r) = snd (presenceBlock w u orig evs r')"
  "hasRobots r = hasRobots r' \<Longrightarrow>
     hasRobots (fst (presenceBlock w u orig evs r)) = hasRobots (fst (presenceBlock w u orig evs r'))"
  "hasSitemap r = hasSitemap r' \<Longrightarrow>
     hasSitemap (fst (presenceBlock w u orig evs r)) = hasSitemap (fst (presenceBlock w u orig evs r'))"
  by (simp_all add: presenceBlock_def Let_def split: sum.splits)

lemma analysisBlock_Inr_markup:
  assumes "cheerio_load w html = Inr d"
  shows "title (fst (analysisBlock w u orig html evs r)) =
           (if trim (doc_title d) = [] then None else Some (trim (doc_title d)))"
    and "metaDescription (fst (analysisBlock w u orig html evs r)) =
           (if orEmpty (doc_description d) = [] then None else doc_description d)"
    and "h1Count (fst (analysisBlock w u orig html evs r)) = Some (int (doc_h1 d))"
    and "imgWithoutAlt (fst (analysisBlock w u orig html evs r)) =
           Some (int (length (filter (\<lambda>el. noAlt (img_alt el)) (doc_imgs d))))"
    and "scriptsCount (fst (analysisBlock w u orig html evs r)) = Some (int (doc_scripts d))"
    and "inlineStylesCount (fst (analysisBlock w u orig html evs r)) = Some (int (doc_styled d))"
    and "hasViewport (fst (analysisBlock w u orig html evs r)) = Some (checkViewportMeta html)"
    and "responsive (fst (analysisBlock w u orig html evs r)) = Some (checkViewportMeta html)"
    and "hasMixedContent (fst (analysisBlock w u orig html evs r)) = Some (hasMixedContentWarning html)"
  using assms by (simp_all add: analysisBlock_def Let_def)


section \<open>The complete run\<close>

lemma fullRun_shape:
  "\<exists>a b x y. fst (fullRun w u html) =
     (fst (analysisBlock w u (safeOrigin w u) html [Fetch GET u] (fst (fetchBlock w u (emptyResult u)))))
       \<lparr>hasRobots := a, hasSitemap := b, redirects := x, score := y\<rparr>"
proof -
  define a0 where "a0 = analysisBlock w u (safeOrigin w u) html [Fetch GET u] (fst (fetchBlock w u (emptyResult u)))"
  define p0 where "p0 = presenceBlock w u (safeOrigin w u) (snd (snd a0)) (fst a0)"
  define rd where "rd = checkRedirects w (snd p0) u"
  define y where "y = Some (calculateScore ((fst p0)\<lparr>redirects := Some (fst rd)\<rparr>))"
  have fr: "fst (fullRun w u html) = (fst p0)\<lparr>redirects := Some (fst rd), score := y\<rparr>"
    unfolding fullRun_def Let_def a0_def p0_def rd_def y_def by (rule fst_conv)
  obtain a b where p: "fst p0 = (fst a0)\<lparr>hasRobots := a, hasSitemap := b\<rparr>"
    unfolding p0_def using presenceBlock_shape by blast
  have "fst (fullRun w u html) = (fst a0)\<lparr>hasRobots := a, hasSitemap := b, redirects := Some (fst rd), score := y\<rparr>"
    unfolding fr p by (rule refl)
  then show ?thesis unfolding a0_def by blast
qed

lemma fullRun_keeps:
  fixes w :: "'u world"
  defines "A \<equiv> \<lambda>(w :: 'u world) u html. fst (analysisBlock w u (safeOrigin w u) html [Fetch GET u] (fst (fetchBlock w u (emptyResult u))))"
  shows "url (fst (fullRun w u html)) = url (A w u html)"
    and "error (fst (fullRun w u html)) = error (A w u html)"
    and "ttfbMs (fst (fullRun w u html)) = ttfbMs (A w u html)"
    and "fcpMs (fst (fullRun w u html)) = fcpMs (A w u html)"
    and "lcpMs (fst (fullRun w u html)) = lcpMs (A w u html)"
    and "totalImages (fst (fullRun w u html)) = totalImages (A w u html)"
    and "imageIssues (fst (fullRun w u html)) = imageIssues (A w u html)"
    and "totalLinks (fst (fullRun w u html)) = totalLinks (A w u html)"
    and "externalLinks (fst (fullRun w u html)) = externalLinks (A w u html)"
    and "brokenLinks (fst (fullRun w u html)) = brokenLinks (A w u html)"
proof -
  obtain a b x y where p: "fst (fullRun w u html) = (A w u html)\<lparr>hasRobots := a, hasSitemap := b, redirects := x, score := y\<rparr>"
    unfolding A_def using fullRun_shape [of w u html] by auto
  show "url (fst (fullRun w u html)) = url (A w u html)"
    and "error (fst (fullRun w u html)) = error (A w u html)"
    and "ttfbMs (fst (fullRun w u html)) = ttfbMs (A w u html)"
    and "fcpMs (fst (fullRun w u html)) = fcpMs (A w u html)"
    and "lcpMs (fst (fullRun w u html)) = lcpMs (A w u html)"
    and "totalImages (fst (fullRun w u html)) = totalImages (A w u html)"
    and "imageIssues (fst (fullRun w u html)) = imageIssues (A w u html)"
    and "totalLinks (fst (fullRun w u html)) = totalLinks (A w u html)"
    and "externalLinks (fst (fullRun w u html)) = externalLinks (A w u html)"
    and "brokenLinks (fst (fullRun w u html)) = brokenLinks (A w u html)"
    unfolding p by simp_all
qed

lemma fullRun_score:
  "score (fst (fullRun w u html)) = Some (calculateScore (fst (fullRun w u html)))"
  unfolding fullRun_def Let_def fst_conv by (simp add: calculateScore_score)

lemma fullRun_redirects:
  "redirects (fst (fullRun w u html)) =
     Some (fst (checkRedirects w
       (snd (presenceBlock w u (safeOrigin w u)
          (snd (snd (analysisBlock w u (safeOrigin w u) html [Fetch GET u] (fst (fetchBlock w u (emptyResult u))))))
          (fst (analysisBlock w u (safeOrigin w u) html [Fetch GET u] (fst (fetchBlock w u (emptyResult u))))))) u))"
  unfolding fullRun_def Let_def fst_conv by simp

lemma runAudit_after_text:
  assumes "fetch w [] GET u = Inr res" "res_text res = Inr html"
  shows "ttfbMs (fst (runAudit w u)) = ttfbMs (fst (fetchBlock w u (emptyResult u)))"
    and "fcpMs (fst (runAudit w u)) = fcpMs (fst (fetchBlock w u (emptyResult u)))"
    and "lcpMs (fst (runAudit w u)) = lcpMs (fst (fetchBlock w u (emptyResult u)))"
proof -
  consider (empty) "html = []"
    | (bad) e where "html \<noteq> []" "cheerio_load w html = Inl e"
    | (full) d where "html \<noteq> []" "cheerio_load w html = Inr d"
    by (cases "cheerio_load w html") auto
  then have "ttfbMs (fst (runAudit w u)) = ttfbMs (fst (fetchBlock w u (emptyResult u)))
    \<and> fcpMs (fst (runAudit w u)) = fcpMs (fst (fetchBlock w u (emptyResult u)))
    \<and> lcpMs (fst (runAudit w u)) = lcpMs (fst (fetchBlock w u (emptyResult u)))"
  proof cases
    case empty
    then show ?thesis using assms by (simp add: runAudit_empty_body)
  next
    case bad
    then show ?thesis using assms by (simp add: runAudit_load_Inl)
  next
    case full
    then show ?thesis using assms by (simp add: runAudit_full fullRun_keeps analysisBlock_keeps)
  qed
  then show "ttfbMs (fst (runAudit w u)) = ttfbMs (fst (fetchBlock w u (emptyResult u)))"
    and "fcpMs (fst (runAudit w u)) = fcpMs (fst (fetchBlock w u (emptyResult u)))"
    and "lcpMs (fst (runAudit w u)) = lcpMs (fst (fetchBlock w u (emptyResult u)))"
    by simp_all
qed

lemma round_nonneg: "0 \<le> (x::real) \<Longrightarrow> 0 \<le> round x"
  by (simp add: round_def)

lemma estimateMetrics_fields:
  "ttfb (estimateMetrics L S rnd) = max (fl (real_of_int L - 50)) 0"
  "fcp (estimateMetrics L S rnd) =
     fl (max (fl (real_of_int L - 50)) 0 + min (fl (real S / 100)) 500)"
  "lcp (estimateMetrics L S rnd) =
     fl (fl (max (fl (real_of_int L - 50)) 0 + min (fl (real S / 100)) 500) + fl (rnd * 800))"
  by (simp_all add: estimateMetrics_def Let_def)

lemma fullRun_presence:
  "hasRobots (fst (fullRun w u html)) =
     hasRobots (fst (presenceBlock w u (safeOrigin w u)
        (snd (snd (analysisBlock w u (safeOrigin w u) html [Fetch GET u] (fst (fetchBlock w u (emptyResult u))))))
        (fst (analysisBlock w u (safeOrigin w u) html [Fetch GET u] (fst (fetchBlock w u (emptyResult u)))))))"
  "hasSitemap (fst (fullRun w u html)) =
     hasSitemap (fst (presenceBlock w u (safeOrigin w u)
        (snd (snd (analysisBlock w u (safeOrigin w u) html [Fetch GET u] (fst (fetchBlock w u (emptyResult u))))))
        (fst (analysisBlock w u (safeOrigin w u) html [Fetch GET u] (fst (fetchBlock w u (emptyResult u)))))))"
  unfolding fullRun_def Let_def fst_conv by simp_all


section \<open>Links\<close>

lemma isExternal_iff:
  "isExternal w u (safeOrigin w u) a =
     (case URL_new_base w (orEmpty a) u of
        None \<Rightarrow> False
      | Some x \<Rightarrow> (case safeOrigin w u of None \<Rightarrow> False | Some org \<Rightarrow> orEmpty a \<noteq> [] \<and> URL_origin w x \<noteq> org))"
  by (simp add: isExternal_def Let_def orElse_def split: option.splits)

lemma runAudit_link_counts:
  assumes "fetch w [] GET u = Inr res" "res_text res = Inr html" "html \<noteq> []"
    and "cheerio_load w html = Inr d"
  shows "totalLinks (fst (runAudit w u)) = Some (int (length (doc_anchors d)))"
    and "externalLinks (fst (runAudit w u)) =
           Some (int (length (filter (isExternal w u (safeOrigin w u)) (doc_anchors d))))"
    and "error (fst (runAudit w u)) = None"
  using assms
  by (simp_all add: runAudit_full fullRun_keeps analysisBlock_Inr analysisBlock_keeps fetchBlock_keeps emptyResult_def)

section \<open>The probe loop\<close>

lemma probeStep_fields:
  "checked (probeStep w b href st) = checked st @ [href]"
  "count (probeStep w b href st) = count st + 1"
  by (simp_all add: probeStep_def Let_def split: option.splits sum.splits)

lemma probeStep_links:
  "length (links (probeStep w b href st)) \<le> length (links st) + 1"
  by (simp add: probeStep_def Let_def split: option.splits sum.splits)

lemma probeStep_calls:
  "\<exists>ys. calls (probeStep w b href st) = calls st @ ys \<and> length ys \<le> 1"
  by (simp add: probeStep_def Let_def split: option.splits sum.splits)

lemma probeLoop_checked:
  "checked (probeLoop w b l as st) =
     checked st @ take (l - count st)
       (firstNew (checked st) (filter (\<lambda>h. h \<noteq> [] \<and> \<not> startsWith h ''#'') (map orEmpty as)))"
proof (induction as arbitrary: st)
  case Nil
  then show ?case by simp
next
  case (Cons a as)
  show ?case
  proof (cases "count st < l")
    case False
    then show ?thesis by simp
  next
    case True
    then obtain k where k: "l - count st = Suc k" by (cases "l - count st") auto
    then have k': "l - Suc (count st) = k" by simp
    show ?thesis
      using True Cons.IH [of st] Cons.IH [of "probeStep w b (orEmpty a) st"]
      by (simp add: Let_def probeStep_fields k k')
  qed
qed

lemma probeLoop_count:
  "count (probeLoop w b l as st) + length (checked st) = count st + length (checked (probeLoop w b l as st))"
proof (induction as arbitrary: st)
  case Nil
  then show ?case by simp
next
  case (Cons a as)
  show ?case
    using Cons.IH [of st] Cons.IH [of "probeStep w b (orEmpty a) st"]
    by (simp add: Let_def probeStep_fields)
qed

lemma probeLoop_links:
  "length (links (probeLoop w b l as st)) + count st \<le> length (links st) + count (probeLoop w b l as st)"
proof (induction as arbitrary: st)
  case Nil
  then show ?case by simp
next
  case (Cons a as)
  show ?case
    using Cons.IH [of st] Cons.IH [of "probeStep w b (orEmpty a) st"]
      probeStep_links [of w b "orEmpty a" st]
    by (simp add: Let_def probeStep_fields)
qed

lemma probeLoop_calls:
  "\<exists>ys. calls (probeLoop w b l as st) = calls st @ ys
        \<and> length ys + count st \<le> count (probeLoop w b l as st)"
proof (induction as arbitrary: st)
  case Nil
  then show ?case by simp
next
  case (Cons a as)
  show ?case
  proof (cases "count st < l \<and> \<not> (orEmpty a = [] \<or> startsWith (orEmpty a) ''#'' \<or> orEmpty a \<in> set (checked st))")
    case False
    then show ?thesis using Cons.IH [of st] by (auto simp: Let_def)
  next
    case True
    let ?s = "probeStep w b (orEmpty a) st"
    obtain ys where ys: "calls ?s = calls st @ ys" "length ys \<le> 1"
      using probeStep_calls by blast
    obtain zs where zs: "calls (probeLoop w b l as ?s) = calls ?s @ zs"
      "length zs + count ?s \<le> count (probeLoop w b l as ?s)"
      using Cons.IH [of ?s] by blast
    have "calls (probeLoop w b l (a # as) st) = calls st @ (ys @ zs)"
      using True ys zs by (simp add: Let_def)
    moreover have "length (ys @ zs) + count st \<le> count (probeLoop w b l (a # as) st)"
      using True ys zs by (simp add: Let_def probeStep_fields)
    ultimately show ?thesis by blast
  qed
qed

lemma remdups_snoc: "remdups (ys @ [x]) = filter (\<lambda>y. y \<noteq> x) (remdups ys) @ [x]"
  by (induction ys) auto

lemma firstNew_filter:
  "firstNew seen xs = filter (\<lambda>x. x \<notin> set seen) (rev (remdups (rev xs)))"
proof (induction xs arbitrary: seen)
  case Nil
  then show ?case by simp
next
  case (Cons x xs)
  have "filter (\<lambda>y. y \<notin> set seen) (filter (\<lambda>y. y \<noteq> x) (rev (remdups (rev xs))))
        = filter (\<lambda>y. y \<notin> set (seen @ [x])) (rev (remdups (rev xs)))"
    by (simp add: conj_commute)
  moreover have "x \<in> set seen \<Longrightarrow>
     filter (\<lambda>y. y \<notin> set seen) (filter (\<lambda>y. y \<noteq> x) (rev (remdups (rev xs))))
       = filter (\<lambda>y. y \<notin> set seen) (rev (remdups (rev xs)))"
    by (auto intro: filter_cong)
  ultimately show ?case
    using Cons.IH [of seen] Cons.IH [of "seen @ [x]"]
    by (simp add: remdups_snoc rev_filter)
qed

lemma firstNew_Nil: "firstNew [] xs = rev (remdups (rev xs))"
  by (simp add: firstNew_filter)


lemma checkBrokenLinks_calls:
  "\<exists>ys. snd (checkBrokenLinks w evs as b limit) = evs @ ys"
  using probeLoop_calls [where st = "\<lparr>links = [], checked = [], count = 0, calls = evs\<rparr>" and w = w and b = b and l = "orElse limit 5" and as = as]
  by (auto simp: checkBrokenLinks_def Let_def)

lemma checkBrokenLinks_length:
  "length (fst (checkBrokenLinks w evs as b limit)) \<le> orElse limit 5"
proof -
  let ?st = "probeLoop w b (orElse limit 5) as \<lparr>links = [], checked = [], count = 0, calls = evs\<rparr>"
  have c: "count ?st = length (checked ?st)"
    using probeLoop_count [where st = "\<lparr>links = [], checked = [], count = 0, calls = evs\<rparr>" and w = w and b = b and l = "orElse limit 5" and as = as]
    by simp
  have k: "length (checked ?st) \<le> orElse limit 5"
    by (simp add: probeLoop_checked)
  have l: "length (links ?st) \<le> count ?st"
    using probeLoop_links [where st = "\<lparr>links = [], checked = [], count = 0, calls = evs\<rparr>" and w = w and b = b and l = "orElse limit 5" and as = as]
    by simp
  show ?thesis using c k l by (simp add: checkBrokenLinks_def Let_def)
qed

lemma presenceBlock_calls:
  "\<exists>ys. snd (presenceBlock w u orig evs r) = evs @ ys"
  by (simp add: presenceBlock_def Let_def split: sum.splits)

lemma checkRedirects_calls:
  "\<exists>ys. snd (checkRedirects w evs u) = evs @ ys"
  by (simp add: checkRedirects_def Let_def split: option.splits sum.splits)

lemma fullRun_calls:
  assumes "cheerio_load w html = Inr d"
  shows "\<exists>ys. snd (fullRun w u html) = [Fetch GET u, Load html] @ ys"
proof -
  let ?a = "analysisBlock w u (safeOrigin w u) html [Fetch GET u] (fst (fetchBlock w u (emptyResult u)))"
  let ?p = "presenceBlock w u (safeOrigin w u) (snd (snd ?a)) (fst ?a)"
  obtain xs where xs: "snd (snd ?a) = [Fetch GET u, Load html] @ xs"
    using checkBrokenLinks_calls [of w "[Fetch GET u] @ [Load html]" "doc_anchors d" u "Some 3"]
    by (auto simp: analysisBlock_Inr [OF assms])
  obtain ys where ys: "snd ?p = snd (snd ?a) @ ys"
    using presenceBlock_calls by blast
  obtain zs where zs: "snd (checkRedirects w (snd ?p) u) = snd ?p @ zs"
    using checkRedirects_calls by blast
  have "snd (fullRun w u html) = snd (checkRedirects w (snd ?p) u)"
    unfolding fullRun_def Let_def snd_conv by (rule refl)
  then have "snd (fullRun w u html) = [Fetch GET u, Load html] @ (xs @ ys @ zs)"
    using xs ys zs by simp
  then show ?thesis by blast
qed

lemma runAudit_brokenLinks:
  "\<exists>ls. brokenLinks (fst (runAudit w u)) = Some ls \<and> length ls \<le> 3"
proof (cases "fetch w [] GET u")
  case (Inl e)
  then show ?thesis by (simp add: runAudit_fetch_Inl emptyResult_def)
next
  case (Inr res)
  note f = this
  have b0: "brokenLinks (fst (fetchBlock w u (emptyResult u))) = Some []"
    by (simp add: fetchBlock_keeps emptyResult_def)
  show ?thesis
  proof (cases "res_text res")
    case (Inl e)
    then show ?thesis using f b0 by (simp add: runAudit_text_Inl)
  next
    case (Inr html)
    note t = this
    show ?thesis
    proof (cases "html = []")
      case True
      then show ?thesis using f t b0 by (simp add: runAudit_empty_body)
    next
      case False
      show ?thesis
      proof (cases "cheerio_load w html")
        case (Inl e)
        then show ?thesis using f t False b0 by (simp add: runAudit_load_Inl)
      next
        case (Inr d)
        then show ?thesis
          using f t False checkBrokenLinks_length [of w "[Fetch GET u, Load html]" "doc_anchors d" u "Some 3"]
          by (simp add: runAudit_full fullRun_keeps analysisBlock_Inr orElse_def)
      qed
    qed
  qed
qed

section \<open>Images\<close>

lemma foldl_pushImage:
  "foldl pushImage acc imgs =
     acc @ map imageIssue
       (filter (\<lambda>el. alt (imageIssue el) \<or> missingFormats (imageIssue el) \<or> oversized (imageIssue el)) imgs)"
  by (induction imgs arbitrary: acc) (simp_all add: pushImage_def Let_def)

lemma trim_Nil: "trim [] = []"
  by (simp add: trim_def)

lemma noAlt_iff: "noAlt a = (case a of None \<Rightarrow> True | Some t \<Rightarrow> trim t = [])"
  by (auto simp: noAlt_def trim_Nil split: option.splits)

section \<open>Exceptions\<close>

lemma safeOriginE_eq: "safeOriginE w input = Inr (safeOrigin w input)"
  by (simp add: safeOriginE_def safeOrigin_def newURL_def split: option.splits)

lemma probeStepE_eq: "probeStepE w b href st = (Inr (), probeStep w b href st)"
proof (cases "URL_new_base w href b")
  case None
  then show ?thesis by (simp add: probeStepE_def probeTry_def probeStep_def newURLbase_def Let_def)
next
  case (Some x)
  note x = this
  show ?thesis
  proof (cases "fetch w (calls st) HEAD (URL_toString w x)")
    case (Inl e)
    then show ?thesis using x
      by (simp add: probeStepE_def probeTry_def probeStep_def newURLbase_def Let_def)
  next
    case (Inr res)
    then show ?thesis using x
      by (simp add: probeStepE_def probeTry_def probeStep_def newURLbase_def Let_def)
  qed
qed

lemma probeLoopE_eq: "probeLoopE w b l as st = (Inr (), probeLoop w b l as st)"
  by (induction as arbitrary: st) (simp_all add: Let_def probeStepE_eq)

lemma checkBrokenLinksE_eq:
  "checkBrokenLinksE w evs as b limit =
     (Inr (fst (checkBrokenLinks w evs as b limit)), snd (checkBrokenLinks w evs as b limit))"
  by (simp add: checkBrokenLinksE_def checkBrokenLinks_def probeLoopE_eq Let_def)

lemma checkRedirectsE_eq:
  "checkRedirectsE w evs u = (Inr (fst (checkRedirects w evs u)), snd (checkRedirects w evs u))"
proof (cases "URL_new w u")
  case None
  then show ?thesis
    by (simp add: checkRedirectsE_def redirectsTry_def checkRedirects_def newURL_def)
next
  case (Some p)
  note p = this
  show ?thesis
  proof (cases "URL_hostname w (wwwVariant w p) = URL_hostname w p")
    case True
    then show ?thesis using p
      by (simp add: checkRedirectsE_def redirectsTry_def checkRedirects_def newURL_def Let_def)
  next
    case False
    note h = this
    show ?thesis
    proof (cases "fetch w evs GET (URL_toString w (wwwVariant w p))")
      case (Inl e)
      then show ?thesis using p h
        by (simp add: checkRedirectsE_def redirectsTry_def redirectProbeTry_def checkRedirects_def
              newURL_def Let_def)
    next
      case (Inr res)
      then show ?thesis using p h
        by (simp add: checkRedirectsE_def redirectsTry_def redirectProbeTry_def checkRedirects_def
              newURL_def Let_def)
    qed
  qed
qed

lemma analysisTry_eq:
  "analysisTry w u orig html evs r =
     (case analysisBlock w u orig html evs r of
        (r1, None, evs1) \<Rightarrow> (Inr (), r1, evs1)
      | (r1, Some e, evs1) \<Rightarrow> (Inl e, r1, evs1))"
proof (cases "cheerio_load w html")
  case (Inl e)
  then show ?thesis by (simp add: analysisTry_def analysisBlock_def)
next
  case (Inr d)
  then show ?thesis
    by (simp add: analysisTry_def analysisBlock_def checkBrokenLinksE_eq Let_def)
qed

lemma presenceTry_eq:
  "presenceBlock w u orig evs r =
     (case presenceTry w (if orEmpty orig = [] then orEmpty (safeOrigin w u) else orEmpty orig) evs r of
        (caught, r1, evs1) \<Rightarrow> (r1, evs1))"
proof -
  define origin where "origin = (if orEmpty orig = [] then orEmpty (safeOrigin w u) else orEmpty orig)"
  show ?thesis
  proof (cases "origin = []")
    case True
    then show ?thesis unfolding origin_def [symmetric]
      by (simp add: presenceBlock_def presenceTry_def origin_def Let_def)
  next
    case False
    note o = this
    show ?thesis
    proof (cases "fetch w evs GET (origin @ ''/robots.txt'')")
      case (Inl e)
      then show ?thesis using o by (simp add: presenceBlock_def presenceTry_def origin_def Let_def)
    next
      case (Inr rb)
      note f1 = this
      show ?thesis
      proof (cases "fetch w (evs @ [Fetch GET (origin @ ''/robots.txt'')]) GET (origin @ ''/sitemap.xml'')")
        case (Inl e)
        then show ?thesis using o f1 by (simp add: presenceBlock_def presenceTry_def origin_def Let_def)
      next
        case (Inr s1)
        note f2 = this
        show ?thesis
        proof (cases "fetch w (evs @ [Fetch GET (origin @ ''/robots.txt''), Fetch GET (origin @ ''/sitemap.xml'')]) GET (origin @ ''/sitemap_index.xml'')")
          case (Inl e)
          then show ?thesis using o f1 f2
            by (simp add: presenceBlock_def presenceTry_def origin_def Let_def)
        next
          case (Inr s2)
          then show ?thesis using o f1 f2
            by (simp add: presenceBlock_def presenceTry_def origin_def Let_def)
        qed
      qed
    qed
  qed
qed

lemma runAuditE_eq: "runAuditE w u = (Inr (fst (runAudit w u)), snd (runAudit w u))"
proof -
  obtain r1 out where fb: "fetchBlock w u (emptyResult u) = (r1, out)"
    by (cases "fetchBlock w u (emptyResult u)") auto
  show ?thesis
  proof (cases out)
    case (Inl err)
    then show ?thesis
      by (simp add: runAuditE_def runAudit_def safeOriginE_eq fb Let_def)
  next
    case (Inr html)
    note out = this
    show ?thesis
    proof (cases "html = []")
      case True
      then show ?thesis
        by (simp add: runAuditE_def runAudit_def safeOriginE_eq fb out Let_def)
    next
      case False
      note n = this
      obtain r2 thrown evs2 where
        ab: "analysisBlock w u (safeOrigin w u) html [Fetch GET u] r1 = (r2, thrown, evs2)"
        by (cases "analysisBlock w u (safeOrigin w u) html [Fetch GET u] r1") auto
      show ?thesis
      proof (cases thrown)
        case (Some e)
        then show ?thesis
          by (simp add: runAuditE_def runAudit_def safeOriginE_eq analysisTry_eq fb out n ab Let_def)
      next
        case None
        define origin where
          "origin = (if orEmpty (safeOrigin w u) = [] then orEmpty (safeOrigin w u)
                     else orEmpty (safeOrigin w u))"
        obtain caught r3 evs3 where pt: "presenceTry w origin evs2 r2 = (caught, r3, evs3)"
          by (cases "presenceTry w origin evs2 r2") auto
        have pb: "presenceBlock w u (safeOrigin w u) evs2 r2 = (r3, evs3)"
          unfolding presenceTry_eq origin_def [symmetric] pt by simp
        have og: "(if orEmpty (safeOrigin w u) = []
                   then (case Inr (safeOrigin w u) :: exn + string option of
                           Inl e \<Rightarrow> Inl e
                         | Inr again \<Rightarrow> Inr (orEmpty again))
                   else Inr (orEmpty (safeOrigin w u))) = (Inr origin :: exn + string)"
          by (simp add: origin_def)
        have "runAuditE w u =
                (Inr ((r3\<lparr>redirects := Some (fst (checkRedirects w evs3 u))\<rparr>)
                        \<lparr>score := Some (calculateScore (r3\<lparr>redirects := Some (fst (checkRedirects w evs3 u))\<rparr>))\<rparr>),
                 snd (checkRedirects w evs3 u))"
          unfolding runAuditE_def Let_def safeOriginE_eq
          by (simp add: fb out n analysisTry_eq ab None og pt checkRedirectsE_eq)
        moreover have "runAudit w u =
                ((r3\<lparr>redirects := Some (fst (checkRedirects w evs3 u))\<rparr>)
                        \<lparr>score := Some (calculateScore (r3\<lparr>redirects := Some (fst (checkRedirects w evs3 u))\<rparr>))\<rparr>,
                 snd (checkRedirects w evs3 u))"
          unfolding runAudit_def Let_def
          by (simp add: fb out n ab None pb)
        ultimately show ?thesis by simp
      qed
    qed
  qed
qed

lemma runAudit_url_error:
  "url (fst (runAudit w u)) = u
   \<and> error (fst (runAudit w u)) =
       (case fetch w [] GET u of
          Inl e \<Rightarrow> Some (exn_message e)
        | Inr res \<Rightarrow>
            (case res_text res of
               Inl e \<Rightarrow> Some (exn_message e)
             | Inr html \<Rightarrow>
                 if html = [] then None
                 else (case cheerio_load w html of Inl e \<Rightarrow> Some (exn_message e) | Inr d \<Rightarrow> None)))"
proof (cases "fetch w [] GET u")
  case (Inl e)
  then show ?thesis by (simp add: runAudit_fetch_Inl emptyResult_def)
next
  case (Inr res)
  note f = this
  have u0: "url (fst (fetchBlock w u (emptyResult u))) = u"
    and e0: "error (fst (fetchBlock w u (emptyResult u))) = None"
    by (simp_all add: fetchBlock_keeps emptyResult_def)
  show ?thesis
  proof (cases "res_text res")
    case (Inl e)
    then show ?thesis using f u0 by (simp add: runAudit_text_Inl)
  next
    case (Inr html)
    note t = this
    show ?thesis
    proof (cases "html = []")
      case True
      then show ?thesis using f t u0 e0 by (simp add: runAudit_empty_body)
    next
      case False
      show ?thesis
      proof (cases "cheerio_load w html")
        case (Inl e)
        then show ?thesis using f t False u0 by (simp add: runAudit_load_Inl)
      next
        case (Inr d)
        then show ?thesis
          using f t False u0 e0
          by (simp add: runAudit_full fullRun_keeps analysisBlock_keeps)
      qed
    qed
  qed
qed

section \<open>The claims\<close>

text \<open>
  C1. Where the primary fetch fails, either in the call of \<open>fetch\<close> or while the body is
  read, \<open>runAudit\<close> returns with \<open>error\<close> set to the description of the failure; the only
  call made to the outside is the primary request, so no later stage runs, and the score
  stays 0, which is not what \<open>calculateScore\<close> gives for the report. Where the call of
  \<open>fetch\<close> fails, every other field has its initial value. Where the reading of the body
  fails, the status, the latency, the content type, the scheme flag and the HSTS flag are
  those of the response, and every other field has its initial value.
\<close>

theorem runAudit_primary_failure:
  assumes "fetch w [] GET u = Inl err \<or> (\<exists>res. fetch w [] GET u = Inr res \<and> res_text res = Inl err)"
  shows "runAudit w u =
       ((case fetch w [] GET u of
           Inl e \<Rightarrow> emptyResult u
         | Inr res \<Rightarrow>
             (emptyResult u)\<lparr>status := Some (res_status res),
               responseTimeMs := Some (now w [Fetch GET u] - now w []),
               contentType := res_header res ''content-type'',
               isHttps := Some (startsWith (res_url res) ''https:''),
               hasHsts := Some (orEmpty (res_header res ''strict-transport-security'') \<noteq> [])\<rparr>)
          \<lparr>error := Some (exn_message err)\<rparr>,
        [Fetch GET u])
       \<and> error (fst (runAudit w u)) = Some (exn_message err)
       \<and> score (fst (runAudit w u)) = Some 0
       \<and> 45 \<le> calculateScore (fst (runAudit w u))
       \<and> title (fst (runAudit w u)) = None
       \<and> metaDescription (fst (runAudit w u)) = None
       \<and> h1Count (fst (runAudit w u)) = Some 0
       \<and> totalImages (fst (runAudit w u)) = Some 0
       \<and> imgWithoutAlt (fst (runAudit w u)) = Some 0
       \<and> imageIssues (fst (runAudit w u)) = Some []
       \<and> totalLinks (fst (runAudit w u)) = Some 0
       \<and> brokenLinks (fst (runAudit w u)) = Some []
       \<and> externalLinks (fst (runAudit w u)) = Some 0
       \<and> scriptsCount (fst (runAudit w u)) = Some 0
       \<and> inlineStylesCount (fst (runAudit w u)) = Some 0
       \<and> hasRobots (fst (runAudit w u)) = Some False
       \<and> hasSitemap (fst (runAudit w u)) = Some False
       \<and> ttfbMs (fst (runAudit w u)) = Some 0
       \<and> fcpMs (fst (runAudit w u)) = Some 0
       \<and> lcpMs (fst (runAudit w u)) = Some 0
       \<and> hasViewport (fst (runAudit w u)) = Some False
       \<and> responsive (fst (runAudit w u)) = Some False
       \<and> hasMixedContent (fst (runAudit w u)) = Some False
       \<and> redirects (fst (runAudit w u)) = Some []
       \<and> snd (runAudit w u) = [Fetch GET u]"
proof -
  from assms consider (call) "fetch w [] GET u = Inl err"
    | (body) res where "fetch w [] GET u = Inr res" "res_text res = Inl err"
    by blast
  then show ?thesis
  proof cases
    case call
    have r: "runAudit w u = ((emptyResult u)\<lparr>error := Some (exn_message err)\<rparr>, [Fetch GET u])"
      using call by (rule runAudit_fetch_Inl)
    show ?thesis
      unfolding r using call calculateScore_ge_45 [of "(emptyResult u)\<lparr>error := Some (exn_message err)\<rparr>"]
      by (simp add: emptyResult_def)
  next
    case body
    have r: "runAudit w u =
       ((emptyResult u)\<lparr>status := Some (res_status res),
               responseTimeMs := Some (now w [Fetch GET u] - now w []),
               contentType := res_header res ''content-type'',
               isHttps := Some (startsWith (res_url res) ''https:''),
               hasHsts := Some (orEmpty (res_header res ''strict-transport-security'') \<noteq> []),
               error := Some (exn_message err)\<rparr>, [Fetch GET u])"
      using runAudit_text_Inl [OF body] fetchBlock_text_Inl_report [OF body, of "emptyResult u"]
      by simp
    show ?thesis
      unfolding r using body(1)
        calculateScore_ge_45 [of "(emptyResult u)\<lparr>status := Some (res_status res),
               responseTimeMs := Some (now w [Fetch GET u] - now w []),
               contentType := res_header res ''content-type'',
               isHttps := Some (startsWith (res_url res) ''https:''),
               hasHsts := Some (orEmpty (res_header res ''strict-transport-security'') \<noteq> []),
               error := Some (exn_message err)\<rparr>"]
      by (simp add: emptyResult_def)
  qed
qed

theorem runAudit_primary_failure_witness:
  "fetch (mockWorld netDown (\<lambda>h. Inr (mockDoc [] []))) [] GET ''https://example.com/'' = Inl (Exn ''fetch failed'')
   \<and> runAudit (mockWorld netDown (\<lambda>h. Inr (mockDoc [] []))) ''https://example.com/''
       = ((emptyResult ''https://example.com/'')\<lparr>error := Some ''fetch failed''\<rparr>, [Fetch GET ''https://example.com/''])
   \<and> fetch (mockWorld netCut (\<lambda>h. Inr (mockDoc [] []))) [] GET ''https://example.com/''
       = Inr \<lparr>res_status = 200, res_url = ''https://example.com/'', res_header = (\<lambda>name. None),
              res_text = Inl (Exn ''terminated'')\<rparr>
   \<and> runAudit (mockWorld netCut (\<lambda>h. Inr (mockDoc [] []))) ''https://example.com/''
       = ((emptyResult ''https://example.com/'')\<lparr>status := Some 200, responseTimeMs := Some 1200,
            isHttps := Some True, error := Some ''terminated''\<rparr>, [Fetch GET ''https://example.com/''])"
proof -
  let ?U = "''https://example.com/''"
  let ?D = "mockWorld netDown (\<lambda>h. Inr (mockDoc [] []))"
  let ?C = "mockWorld netCut (\<lambda>h. Inr (mockDoc [] []))"
  let ?R = "\<lparr>res_status = 200, res_url = ?U, res_header = (\<lambda>name. None), res_text = Inl (Exn ''terminated'')\<rparr>"
  have h: "fetch ?D [] GET ?U = Inl (Exn ''fetch failed'')"
    by (simp add: mockWorld_def netDown_def)
  have a: "runAudit ?D ?U = ((emptyResult ?U)\<lparr>error := Some ''fetch failed''\<rparr>, [Fetch GET ?U])"
    using runAudit_primary_failure [of ?D ?U "Exn ''fetch failed''"] h by simp
  have k: "fetch ?C [] GET ?U = Inr ?R"
    by (simp add: mockWorld_def netCut_def)
  have k': "\<exists>res. fetch ?C [] GET ?U = Inr res \<and> res_text res = Inl (Exn ''terminated'')"
    using k by simp
  have n: "now ?C [Fetch GET ?U] - now ?C [] = 1200"
    by (simp add: mockWorld_def)
  have b: "runAudit ?C ?U = ((emptyResult ?U)\<lparr>status := Some 200, responseTimeMs := Some 1200,
            isHttps := Some True, error := Some ''terminated''\<rparr>, [Fetch GET ?U])"
    using runAudit_primary_failure [of ?C ?U "Exn ''terminated''"] k k' n
    by (simp add: orEmpty_def emptyResult_def)
  show ?thesis using h a k b by blast
qed

text \<open>
  A response whose body cannot be read gives a report with \<open>error\<close> and with the status,
  the latency and the scheme flag of the response.
\<close>

theorem body_failure_keeps_transport_fields:
  "fetch (mockWorld netCut (\<lambda>h. Inr (mockDoc [] []))) [] GET ''https://example.com/''
       = Inr \<lparr>res_status = 200, res_url = ''https://example.com/'', res_header = (\<lambda>name. None),
              res_text = Inl (Exn ''terminated'')\<rparr>
   \<and> error (fst (runAudit (mockWorld netCut (\<lambda>h. Inr (mockDoc [] []))) ''https://example.com/'')) = Some ''terminated''
   \<and> status (fst (runAudit (mockWorld netCut (\<lambda>h. Inr (mockDoc [] []))) ''https://example.com/'')) = Some 200
   \<and> responseTimeMs (fst (runAudit (mockWorld netCut (\<lambda>h. Inr (mockDoc [] []))) ''https://example.com/'')) = Some 1200
   \<and> isHttps (fst (runAudit (mockWorld netCut (\<lambda>h. Inr (mockDoc [] []))) ''https://example.com/'')) = Some True"
proof -
  let ?U = "''https://example.com/''"
  let ?C = "mockWorld netCut (\<lambda>h. Inr (mockDoc [] []))"
  let ?R = "\<lparr>res_status = 200, res_url = ?U, res_header = (\<lambda>name. None), res_text = Inl (Exn ''terminated'')\<rparr>"
  have k: "fetch ?C [] GET ?U = Inr ?R"
    by (simp add: mockWorld_def netCut_def)
  have t: "res_text ?R = Inl (Exn ''terminated'')" by simp
  have n: "now ?C [Fetch GET ?U] - now ?C [] = 1200"
    by (simp add: mockWorld_def)
  show ?thesis
    using k runAudit_text_Inl [OF k t] fetchBlock_text_Inl_report [OF k t, of "emptyResult ?U"] n
    by simp
qed


text \<open>
  C2. The score is 100 less six independent deductions, not below 0: 15 for a scheme that
  is not secure, 10 for no viewport tag, \<open>min 5 n\<close> for \<open>n > 0\<close> images without alt text,
  \<open>min 10 (2 * b)\<close> for \<open>b\<close> broken links, 10 for mixed content and 5 for a latency above
  3000 ms. Every score is between 0 and 100.
\<close>

theorem calculateScore_deductions:
  "calculateScore r =
     max 0 (100
       - (if truthy (isHttps r) then 0 else 15)
       - (if truthy (hasViewport r) then 0 else 10)
       - (if 0 < orElse (imgWithoutAlt r) 0 then min 5 (orElse (imgWithoutAlt r) 0) else 0)
       - min 10 (2 * int (length (orElse (brokenLinks r) [])))
       - (if truthy (hasMixedContent r) then 10 else 0)
       - (if 3000 < orElse (responseTimeMs r) 0 then 5 else 0))
   \<and> 0 \<le> calculateScore r \<and> calculateScore r \<le> 100"
proof -
  define d1 :: int where "d1 = (if truthy (isHttps r) then 0 else 15)"
  define d2 :: int where "d2 = (if truthy (hasViewport r) then 0 else 10)"
  define d3 :: int where
    "d3 = (if 0 < orElse (imgWithoutAlt r) 0 then min 5 (orElse (imgWithoutAlt r) 0) else 0)"
  define d4 :: int where "d4 = min 10 (2 * int (length (orElse (brokenLinks r) [])))"
  define d5 :: int where "d5 = (if truthy (hasMixedContent r) then 10 else 0)"
  define d6 :: int where "d6 = (if 3000 < orElse (responseTimeMs r) 0 then 5 else 0)"
  have c: "calculateScore r = max 0 (100 - d1 - d2 - d3 - d4 - d5 - d6)"
    unfolding d1_def d2_def d3_def d4_def d5_def d6_def by (rule calculateScore_closed)
  have n: "0 \<le> d1" "0 \<le> d2" "0 \<le> d3" "0 \<le> d4" "0 \<le> d5" "0 \<le> d6"
    by (simp_all add: d1_def d2_def d3_def d4_def d5_def d6_def)
  have lo: "0 \<le> calculateScore r" unfolding c by simp
  have hi: "calculateScore r \<le> 100" unfolding c using n by simp
  show ?thesis using calculateScore_closed [of r] lo hi by blast
qed

text \<open>A report that takes all six deductions scores 45.\<close>

theorem calculateScore_deductions_witness:
  "calculateScore ((emptyResult ''http://example.com/'')\<lparr>imgWithoutAlt := Some 7,
       brokenLinks := Some (replicate 5 \<lparr>link_url = ''/a'', statusCode = Some 404, broken = True\<rparr>),
       hasMixedContent := Some True, responseTimeMs := Some 3001\<rparr>) = 45"
  using calculateScore_deductions [of "(emptyResult ''http://example.com/'')\<lparr>imgWithoutAlt := Some 7,
       brokenLinks := Some (replicate 5 \<lparr>link_url = ''/a'', statusCode = Some 404, broken = True\<rparr>),
       hasMixedContent := Some True, responseTimeMs := Some 3001\<rparr>"]
  by (simp add: emptyResult_def truthy_def orElse_def)

text \<open>
  C3. A report without \<open>error\<close> comes from one of two paths. Either the body of the
  response is empty: then \<open>runAudit\<close> returns right after the fetch, with the transport
  fields and the estimates set and the score at its initial 0. Or the body is not empty:
  then the parser returned a document, every markup field of the report is read from it,
  the broken links are those of the link probes made after the parse, the robots and
  sitemap flags are those of the presence probes made after the link probes, the redirect
  issues are those of the redirect check made after the presence probes, the calls made
  are exactly the calls of these stages, and the score is what \<open>calculateScore\<close> gives
  for the report.
\<close>

theorem runAudit_without_error:
  assumes "error (fst (runAudit w u)) = None"
  shows "\<exists>res html. fetch w [] GET u = Inr res \<and> res_text res = Inr html \<and>
     (if html = []
      then runAudit w u = (fst (fetchBlock w u (emptyResult u)), [Fetch GET u])
           \<and> score (fst (runAudit w u)) = Some 0
      else (\<exists>d. cheerio_load w html = Inr d \<and>
             (let probed = checkBrokenLinks w [Fetch GET u, Load html] (doc_anchors d) u (Some 3);
                  present = presenceBlock w u (safeOrigin w u) (snd probed) (emptyResult u);
                  redir = checkRedirects w (snd present) u;
                  r = fst (runAudit w u)
              in snd (runAudit w u) = snd redir
               \<and> title r = (if trim (doc_title d) = [] then None else Some (trim (doc_title d)))
               \<and> metaDescription r = (if orEmpty (doc_description d) = [] then None else doc_description d)
               \<and> h1Count r = Some (int (doc_h1 d))
               \<and> totalImages r = Some (int (length (doc_imgs d)))
               \<and> imgWithoutAlt r = Some (int (length (filter (\<lambda>el. noAlt (img_alt el)) (doc_imgs d))))
               \<and> imageIssues r = Some (analyzeImages (doc_imgs d))
               \<and> totalLinks r = Some (int (length (doc_anchors d)))
               \<and> externalLinks r =
                   Some (int (length (filter (isExternal w u (safeOrigin w u)) (doc_anchors d))))
               \<and> scriptsCount r = Some (int (doc_scripts d))
               \<and> inlineStylesCount r = Some (int (doc_styled d))
               \<and> hasViewport r = Some (checkViewportMeta html)
               \<and> responsive r = Some (checkViewportMeta html)
               \<and> hasMixedContent r = Some (hasMixedContentWarning html)
               \<and> brokenLinks r = Some (fst probed)
               \<and> hasRobots r = hasRobots (fst present)
               \<and> hasSitemap r = hasSitemap (fst present)
               \<and> redirects r = Some (fst redir)
               \<and> score r = Some (calculateScore r))))"
proof (cases "fetch w [] GET u")
  case (Inl e)
  then show ?thesis using assms by (simp add: runAudit_fetch_Inl)
next
  case (Inr res)
  note f = this
  show ?thesis
  proof (cases "res_text res")
    case (Inl e)
    then show ?thesis using assms f by (simp add: runAudit_text_Inl)
  next
    case (Inr html)
    note t = this
    show ?thesis
    proof (cases "html = []")
      case True
      have "score (fst (fetchBlock w u (emptyResult u))) = Some 0"
        by (simp add: fetchBlock_keeps emptyResult_def)
      then show ?thesis using f t True by (simp add: runAudit_empty_body)
    next
      case False
      note n = this
      show ?thesis
      proof (cases "cheerio_load w html")
        case (Inl e)
        then show ?thesis using assms f t n by (simp add: runAudit_load_Inl)
      next
        case (Inr d)
        note l = this
        define A where "A = analysisBlock w u (safeOrigin w u) html [Fetch GET u] (fst (fetchBlock w u (emptyResult u)))"
        define probed where "probed = checkBrokenLinks w [Fetch GET u, Load html] (doc_anchors d) u (Some 3)"
        define present where "present = presenceBlock w u (safeOrigin w u) (snd probed) (emptyResult u)"
        define redir where "redir = checkRedirects w (snd present) u"
        have run: "runAudit w u = fullRun w u html"
          using f t n l by (rule runAudit_full)
        have sA: "snd (snd A) = snd probed"
          unfolding A_def probed_def using analysisBlock_Inr(7) [OF l, of u "safeOrigin w u" "[Fetch GET u]"]
          by simp
        have rA: "hasRobots (fst A) = hasRobots (emptyResult u)"
          and mA: "hasSitemap (fst A) = hasSitemap (emptyResult u)"
          unfolding A_def by (simp_all add: analysisBlock_keeps fetchBlock_keeps)
        have pr: "snd (presenceBlock w u (safeOrigin w u) (snd (snd A)) (fst A)) = snd present"
          "hasRobots (fst (presenceBlock w u (safeOrigin w u) (snd (snd A)) (fst A))) = hasRobots (fst present)"
          "hasSitemap (fst (presenceBlock w u (safeOrigin w u) (snd (snd A)) (fst A))) = hasSitemap (fst present)"
          unfolding sA present_def
          using presenceBlock_indep(1) [of w u "safeOrigin w u" "snd probed" "fst A" "emptyResult u"]
            presenceBlock_indep(2) [OF rA, of w u "safeOrigin w u" "snd probed"]
            presenceBlock_indep(3) [OF mA, of w u "safeOrigin w u" "snd probed"]
          by simp_all
        have tr: "snd (fullRun w u html) = snd redir"
          unfolding fullRun_def Let_def snd_conv redir_def A_def [symmetric] pr by (rule refl)
        have rd: "redirects (fst (fullRun w u html)) = Some (fst redir)"
          unfolding fullRun_redirects redir_def A_def [symmetric] pr by (rule refl)
        have fl: "hasRobots (fst (fullRun w u html)) = hasRobots (fst present)"
          "hasSitemap (fst (fullRun w u html)) = hasSitemap (fst present)"
          unfolding fullRun_presence A_def [symmetric] pr by (rule refl)+
        obtain a b x y where sh: "fst (fullRun w u html) = (fst A)\<lparr>hasRobots := a, hasSitemap := b, redirects := x, score := y\<rparr>"
          unfolding A_def using fullRun_shape [of w u html] by blast
        have mk: "title (fst (fullRun w u html)) = (if trim (doc_title d) = [] then None else Some (trim (doc_title d)))"
          "metaDescription (fst (fullRun w u html)) = (if orEmpty (doc_description d) = [] then None else doc_description d)"
          "h1Count (fst (fullRun w u html)) = Some (int (doc_h1 d))"
          "totalImages (fst (fullRun w u html)) = Some (int (length (doc_imgs d)))"
          "imgWithoutAlt (fst (fullRun w u html)) = Some (int (length (filter (\<lambda>el. noAlt (img_alt el)) (doc_imgs d))))"
          "imageIssues (fst (fullRun w u html)) = Some (analyzeImages (doc_imgs d))"
          "totalLinks (fst (fullRun w u html)) = Some (int (length (doc_anchors d)))"
          "externalLinks (fst (fullRun w u html)) =
             Some (int (length (filter (isExternal w u (safeOrigin w u)) (doc_anchors d))))"
          "scriptsCount (fst (fullRun w u html)) = Some (int (doc_scripts d))"
          "inlineStylesCount (fst (fullRun w u html)) = Some (int (doc_styled d))"
          "hasViewport (fst (fullRun w u html)) = Some (checkViewportMeta html)"
          "responsive (fst (fullRun w u html)) = Some (checkViewportMeta html)"
          "hasMixedContent (fst (fullRun w u html)) = Some (hasMixedContentWarning html)"
          "brokenLinks (fst (fullRun w u html)) = Some (fst probed)"
          unfolding sh A_def probed_def
          by (simp_all add: analysisBlock_Inr [OF l] analysisBlock_Inr_markup [OF l])
        have sc: "score (fst (fullRun w u html)) = Some (calculateScore (fst (fullRun w u html)))"
          by (rule fullRun_score)
        have "let probed = checkBrokenLinks w [Fetch GET u, Load html] (doc_anchors d) u (Some 3);
                  present = presenceBlock w u (safeOrigin w u) (snd probed) (emptyResult u);
                  redir = checkRedirects w (snd present) u;
                  r = fst (runAudit w u)
              in snd (runAudit w u) = snd redir
               \<and> title r = (if trim (doc_title d) = [] then None else Some (trim (doc_title d)))
               \<and> metaDescription r = (if orEmpty (doc_description d) = [] then None else doc_description d)
               \<and> h1Count r = Some (int (doc_h1 d))
               \<and> totalImages r = Some (int (length (doc_imgs d)))
               \<and> imgWithoutAlt r = Some (int (length (filter (\<lambda>el. noAlt (img_alt el)) (doc_imgs d))))
               \<and> imageIssues r = Some (analyzeImages (doc_imgs d))
               \<and> totalLinks r = Some (int (length (doc_anchors d)))
               \<and> externalLinks r =
                   Some (int (length (filter (isExternal w u (safeOrigin w u)) (doc_anchors d))))
               \<and> scriptsCount r = Some (int (doc_scripts d))
               \<and> inlineStylesCount r = Some (int (doc_styled d))
               \<and> hasViewport r = Some (checkViewportMeta html)
               \<and> responsive r = Some (checkViewportMeta html)
               \<and> hasMixedContent r = Some (hasMixedContentWarning html)
               \<and> brokenLinks r = Some (fst probed)
               \<and> hasRobots r = hasRobots (fst present)
               \<and> hasSitemap r = hasSitemap (fst present)
               \<and> redirects r = Some (fst redir)
               \<and> score r = Some (calculateScore r)"
          unfolding Let_def run probed_def [symmetric] present_def [symmetric] redir_def [symmetric]
          using tr mk rd fl sc by blast
        then show ?thesis using f t n l by simp
      qed
    qed
  qed
qed


theorem runAudit_without_error_witness:
  "error (fst (runAudit (mockWorld (netServing ''<html></html>'') (\<lambda>h. Inr (mockDoc [] []))) ''https://example.com/'')) = None
   \<and> score (fst (runAudit (mockWorld (netServing ''<html></html>'') (\<lambda>h. Inr (mockDoc [] []))) ''https://example.com/''))
       = Some (calculateScore (fst (runAudit (mockWorld (netServing ''<html></html>'') (\<lambda>h. Inr (mockDoc [] []))) ''https://example.com/'')))
   \<and> totalLinks (fst (runAudit (mockWorld (netServing ''<html></html>'') (\<lambda>h. Inr (mockDoc [] []))) ''https://example.com/''))
       = Some 0"
proof -
  let ?W = "mockWorld (netServing ''<html></html>'') (\<lambda>h. Inr (mockDoc [] []))"
  let ?U = "''https://example.com/''"
  let ?H = "''<html></html>''"
  have f: "fetch ?W [] GET ?U = Inr (mockResponse 200 ?U ?H)"
    by (simp add: mockWorld_def netServing_def)
  have t: "res_text (mockResponse 200 ?U ?H) = Inr ?H"
    by (simp add: mockResponse_def)
  have n: "?H \<noteq> []" by simp
  have l: "cheerio_load ?W ?H = Inr (mockDoc [] [])"
    by (simp add: mockWorld_def)
  have e: "error (fst (runAudit ?W ?U)) = None"
    by (rule runAudit_link_counts(3) [OF f t n l])
  from runAudit_without_error [OF e, unfolded Let_def] f t l
  have "score (fst (runAudit ?W ?U)) = Some (calculateScore (fst (runAudit ?W ?U)))
        \<and> totalLinks (fst (runAudit ?W ?U)) = Some (int (length (doc_anchors (mockDoc [] []))))"
    by auto
  then show ?thesis using e by (simp add: mockDoc_def)
qed

text \<open>
  With an empty body the report has no \<open>error\<close> and the score 0, where
  \<open>calculateScore\<close> gives 90 for it; the only call made is the primary request.
\<close>

theorem empty_body_without_error:
  "error (fst (runAudit (mockWorld netEmpty (\<lambda>h. Inr (mockDoc [] []))) ''https://example.com/'')) = None
   \<and> score (fst (runAudit (mockWorld netEmpty (\<lambda>h. Inr (mockDoc [] []))) ''https://example.com/'')) = Some 0
   \<and> calculateScore (fst (runAudit (mockWorld netEmpty (\<lambda>h. Inr (mockDoc [] []))) ''https://example.com/'')) = 90
   \<and> snd (runAudit (mockWorld netEmpty (\<lambda>h. Inr (mockDoc [] []))) ''https://example.com/'') = [Fetch GET ''https://example.com/'']"
proof -
  let ?W = "mockWorld netEmpty (\<lambda>h. Inr (mockDoc [] []))"
  let ?U = "''https://example.com/''"
  have f: "fetch ?W [] GET ?U = Inr (mockResponse 200 ?U [])"
    by (simp add: mockWorld_def netEmpty_def)
  have t: "res_text (mockResponse 200 ?U []) = Inr []"
    by (simp add: mockResponse_def)
  have run: "runAudit ?W ?U = (fst (fetchBlock ?W ?U (emptyResult ?U)), [Fetch GET ?U])"
    using f t by (rule runAudit_empty_body)
  have flds: "isHttps (fst (fetchBlock ?W ?U (emptyResult ?U))) = Some True"
    "hasViewport (fst (fetchBlock ?W ?U (emptyResult ?U))) = Some False"
    "imgWithoutAlt (fst (fetchBlock ?W ?U (emptyResult ?U))) = Some 0"
    "brokenLinks (fst (fetchBlock ?W ?U (emptyResult ?U))) = Some []"
    "hasMixedContent (fst (fetchBlock ?W ?U (emptyResult ?U))) = Some False"
    "responseTimeMs (fst (fetchBlock ?W ?U (emptyResult ?U))) = Some 1200"
    "error (fst (fetchBlock ?W ?U (emptyResult ?U))) = None"
    "score (fst (fetchBlock ?W ?U (emptyResult ?U))) = Some 0"
    by (simp_all add: fetchBlock_def Let_def mockWorld_def netEmpty_def mockResponse_def emptyResult_def)
  have c: "calculateScore (fst (fetchBlock ?W ?U (emptyResult ?U))) = 90"
    unfolding calculateScore_closed flds by (simp add: truthy_def orElse_def)
  show ?thesis unfolding run using flds c by simp
qed

text \<open>
  C4. \<open>checkBrokenLinks\<close> probes the hrefs that are not empty and do not start with \<open>#\<close>,
  each once, in document order, up to the limit: the hrefs probed are the first \<open>limit\<close>
  of them, the counter is their number, and there are at most as many issues and at most
  as many requests as the counter says. The limit is 5 where the caller gives none;
  \<open>runAudit\<close> gives 3, so a report has at most 3 broken links.
\<close>

theorem checkBrokenLinks_sample:
  "(let lim = orElse limit 5;
        cands = rev (remdups (rev (filter (\<lambda>h. h \<noteq> [] \<and> \<not> startsWith h ''#'') (map orEmpty anchors))));
        st = probeLoop w baseUrl lim anchors \<lparr>links = [], checked = [], count = 0, calls = evs\<rparr>
    in checkBrokenLinks w evs anchors baseUrl limit = (links st, calls st)
       \<and> checked st = take lim cands
       \<and> count st = min lim (length cands)
       \<and> length (links st) \<le> count st
       \<and> length (fst (checkBrokenLinks w evs anchors baseUrl limit)) \<le> lim
       \<and> (\<exists>ys. calls st = evs @ ys \<and> length ys \<le> count st))
   \<and> checkBrokenLinks w evs anchors baseUrl None = checkBrokenLinks w evs anchors baseUrl (Some 5)
   \<and> (\<exists>ls. brokenLinks (fst (runAudit w u)) = Some ls \<and> length ls \<le> 3)"
proof -
  let ?lim = "orElse limit 5"
  let ?init = "\<lparr>links = [], checked = [], count = 0, calls = evs\<rparr>"
  let ?st = "probeLoop w baseUrl ?lim anchors ?init"
  let ?cands = "rev (remdups (rev (filter (\<lambda>h. h \<noteq> [] \<and> \<not> startsWith h ''#'') (map orEmpty anchors))))"
  have a: "checkBrokenLinks w evs anchors baseUrl limit = (links ?st, calls ?st)"
    by (simp add: checkBrokenLinks_def Let_def)
  have b: "checked ?st = take ?lim ?cands"
    by (simp add: probeLoop_checked firstNew_Nil)
  have c0: "count ?st = length (checked ?st)"
    using probeLoop_count [where st = ?init and w = w and b = baseUrl and l = ?lim and as = anchors] by simp
  have c: "count ?st = min ?lim (length ?cands)"
    unfolding c0 b by (simp add: min.commute)
  have d: "length (links ?st) \<le> count ?st"
    using probeLoop_links [where st = ?init and w = w and b = baseUrl and l = ?lim and as = anchors] by simp
  have e: "length (fst (checkBrokenLinks w evs anchors baseUrl limit)) \<le> ?lim"
    by (rule checkBrokenLinks_length)
  have f: "\<exists>ys. calls ?st = evs @ ys \<and> length ys \<le> count ?st"
    using probeLoop_calls [where st = ?init and w = w and b = baseUrl and l = ?lim and as = anchors] by simp
  have g: "checkBrokenLinks w evs anchors baseUrl None = checkBrokenLinks w evs anchors baseUrl (Some 5)"
    by (simp add: checkBrokenLinks_def orElse_def)
  show ?thesis
    unfolding Let_def using a b c d e f g runAudit_brokenLinks [of w u] by blast
qed

theorem checkBrokenLinks_sample_witness:
  "checked (probeLoop (mockWorld (netServing ''<html></html>'') (\<lambda>h. Inr (mockDoc [] []))) ''https://example.com/'' 3
      [Some ''/a'', Some ''#top'', None, Some ''/a'', Some ''/b'', Some ''/c'', Some ''/d'']
      \<lparr>links = [], checked = [], count = 0, calls = []\<rparr>) = [''/a'', ''/b'', ''/c'']
   \<and> count (probeLoop (mockWorld (netServing ''<html></html>'') (\<lambda>h. Inr (mockDoc [] []))) ''https://example.com/'' 3
      [Some ''/a'', Some ''#top'', None, Some ''/a'', Some ''/b'', Some ''/c'', Some ''/d'']
      \<lparr>links = [], checked = [], count = 0, calls = []\<rparr>) = 3
   \<and> checkBrokenLinks (mockWorld (netServing ''<html></html>'') (\<lambda>h. Inr (mockDoc [] []))) []
      [Some ''/a'', Some ''#top'', None, Some ''/a'', Some ''/b'', Some ''/c'', Some ''/d'']
      ''https://example.com/'' (Some 3)
     = ([], [Fetch HEAD ''https://example.com/a'', Fetch HEAD ''https://example.com/b'',
             Fetch HEAD ''https://example.com/c''])"
proof -
  let ?W = "mockWorld (netServing ''<html></html>'') (\<lambda>h. Inr (mockDoc [] []))"
  let ?U = "''https://example.com/''"
  let ?A = "[Some ''/a'', Some ''#top'', None, Some ''/a'', Some ''/b'', Some ''/c'', Some ''/d'']"
  have cands: "take 3 (rev (remdups (rev (filter (\<lambda>h. h \<noteq> [] \<and> \<not> startsWith h ''#'') (map orEmpty ?A)))))
                 = [''/a'', ''/b'', ''/c'']"
    by (simp add: orEmpty_def)
  have len: "min 3 (length (rev (remdups (rev (filter (\<lambda>h. h \<noteq> [] \<and> \<not> startsWith h ''#'') (map orEmpty ?A)))))) = 3"
    by (simp add: orEmpty_def)
  have run: "checkBrokenLinks ?W [] ?A ?U (Some 3)
     = ([], [Fetch HEAD ''https://example.com/a'', Fetch HEAD ''https://example.com/b'',
             Fetch HEAD ''https://example.com/c''])"
    by (simp add: checkBrokenLinks_def probeStep_def Let_def orElse_def orEmpty_def mockWorld_def
          mockResolve_def mockTable_def mockString_def netServing_def mockResponse_def)
  note t = checkBrokenLinks_sample [of "Some 3" ?A ?W ?U "[]" ?U, unfolded Let_def]
  have o: "orElse (Some 3) 5 = (3::nat)" by (simp add: orElse_def)
  from t have "checked (probeLoop ?W ?U 3 ?A \<lparr>links = [], checked = [], count = 0, calls = []\<rparr>) = [''/a'', ''/b'', ''/c'']"
    and "count (probeLoop ?W ?U 3 ?A \<lparr>links = [], checked = [], count = 0, calls = []\<rparr>) = 3"
    unfolding o cands len by blast+
  then show ?thesis using run by blast
qed

text \<open>Without a limit, four links that answer 404 give four issues.\<close>

theorem checkBrokenLinks_default_limit:
  "\<not> length (fst (checkBrokenLinks (mockWorld netGone (\<lambda>h. Inr (mockDoc [] []))) []
         [Some ''/a'', Some ''/b'', Some ''/c'', Some ''/d''] ''https://example.com/'' None)) \<le> 3"
  by (simp add: checkBrokenLinks_def probeStep_def Let_def orElse_def orEmpty_def mockWorld_def
        mockResolve_def mockTable_def mockString_def netGone_def mockResponse_def)

text \<open>
  C5. Where the document is parsed, \<open>totalLinks\<close> is the number of all anchors, and
  \<open>externalLinks\<close> is the number of anchors whose href is not empty, resolves against
  the target, and has an origin other than the origin of the target; an href that does not
  resolve is not external, and sets no \<open>error\<close>.
\<close>

theorem runAudit_link_totals:
  assumes "fetch w [] GET u = Inr res" "res_text res = Inr html" "html \<noteq> []"
    and "cheerio_load w html = Inr d"
  shows "totalLinks (fst (runAudit w u)) = Some (int (length (doc_anchors d)))
       \<and> externalLinks (fst (runAudit w u)) =
           Some (int (length (filter
             (\<lambda>a. case URL_new_base w (orEmpty a) u of
                     None \<Rightarrow> False
                   | Some x \<Rightarrow> (case safeOrigin w u of
                                  None \<Rightarrow> False
                                | Some org \<Rightarrow> orEmpty a \<noteq> [] \<and> URL_origin w x \<noteq> org))
             (doc_anchors d))))
       \<and> error (fst (runAudit w u)) = None"
proof -
  have e: "isExternal w u (safeOrigin w u) =
           (\<lambda>a. case URL_new_base w (orEmpty a) u of
                     None \<Rightarrow> False
                   | Some x \<Rightarrow> (case safeOrigin w u of
                                  None \<Rightarrow> False
                                | Some org \<Rightarrow> orEmpty a \<noteq> [] \<and> URL_origin w x \<noteq> org))"
    by (rule ext) (rule isExternal_iff)
  show ?thesis using runAudit_link_counts [OF assms] unfolding e by blast
qed

theorem runAudit_link_totals_witness:
  "fetch (mockWorld (netServing ''<html></html>'')
            (\<lambda>h. Inr (mockDoc [Some ''/a'', Some ''https://other.test/x'', Some ''http://[bad'', None] [])))
      [] GET ''https://example.com/'' = Inr (mockResponse 200 ''https://example.com/'' ''<html></html>'')
   \<and> res_text (mockResponse 200 ''https://example.com/'' ''<html></html>'') = Inr ''<html></html>''
   \<and> ''<html></html>'' \<noteq> []
   \<and> cheerio_load (mockWorld (netServing ''<html></html>'')
            (\<lambda>h. Inr (mockDoc [Some ''/a'', Some ''https://other.test/x'', Some ''http://[bad'', None] [])))
        ''<html></html>'' = Inr (mockDoc [Some ''/a'', Some ''https://other.test/x'', Some ''http://[bad'', None] [])
   \<and> totalLinks (fst (runAudit (mockWorld (netServing ''<html></html>'')
            (\<lambda>h. Inr (mockDoc [Some ''/a'', Some ''https://other.test/x'', Some ''http://[bad'', None] [])))
          ''https://example.com/'')) = Some 4
   \<and> externalLinks (fst (runAudit (mockWorld (netServing ''<html></html>'')
            (\<lambda>h. Inr (mockDoc [Some ''/a'', Some ''https://other.test/x'', Some ''http://[bad'', None] [])))
          ''https://example.com/'')) = Some 1"
proof -
  let ?D = "mockDoc [Some ''/a'', Some ''https://other.test/x'', Some ''http://[bad'', None] []"
  let ?W = "mockWorld (netServing ''<html></html>'') (\<lambda>h. Inr ?D)"
  let ?U = "''https://example.com/''"
  let ?H = "''<html></html>''"
  have f: "fetch ?W [] GET ?U = Inr (mockResponse 200 ?U ?H)"
    by (simp add: mockWorld_def netServing_def)
  have t: "res_text (mockResponse 200 ?U ?H) = Inr ?H"
    by (simp add: mockResponse_def)
  have n: "?H \<noteq> []" by simp
  have l: "cheerio_load ?W ?H = Inr ?D"
    by (simp add: mockWorld_def)
  have so: "safeOrigin ?W ?U = Some ''https://example.com''"
    by (simp add: safeOrigin_def mockWorld_def mockTable_def)
  have rs: "URL_new_base ?W = mockResolve" "URL_origin ?W = (\<lambda>u. m_protocol u @ ''//'' @ m_host u)"
    by (simp_all add: mockWorld_def)
  have "totalLinks (fst (runAudit ?W ?U)) = Some 4 \<and> externalLinks (fst (runAudit ?W ?U)) = Some 1"
    using runAudit_link_totals [OF f t n l] unfolding so rs
    by (simp add: mockDoc_def orEmpty_def mockResolve_def mockTable_def)
  then show ?thesis using f t n l by blast
qed

text \<open>An anchor whose href does not resolve is counted in \<open>totalLinks\<close>.\<close>

theorem unresolvable_anchor_is_counted:
  "URL_new_base (mockWorld (netServing ''<html></html>'') (\<lambda>h. Inr (mockDoc [Some ''http://[bad''] [])))
       ''http://[bad'' ''https://example.com/'' = None
   \<and> totalLinks (fst (runAudit (mockWorld (netServing ''<html></html>'')
          (\<lambda>h. Inr (mockDoc [Some ''http://[bad''] []))) ''https://example.com/'')) = Some 1"
proof -
  let ?D = "mockDoc [Some ''http://[bad''] []"
  let ?W = "mockWorld (netServing ''<html></html>'') (\<lambda>h. Inr ?D)"
  let ?U = "''https://example.com/''"
  let ?H = "''<html></html>''"
  have f: "fetch ?W [] GET ?U = Inr (mockResponse 200 ?U ?H)"
    by (simp add: mockWorld_def netServing_def)
  have t: "res_text (mockResponse 200 ?U ?H) = Inr ?H"
    by (simp add: mockResponse_def)
  have n: "?H \<noteq> []" by simp
  have l: "cheerio_load ?W ?H = Inr ?D"
    by (simp add: mockWorld_def)
  have b: "URL_new_base ?W ''http://[bad'' ?U = None"
    by (simp add: mockWorld_def mockResolve_def mockTable_def)
  have "totalLinks (fst (runAudit ?W ?U)) = Some 1"
    using runAudit_link_counts(1) [OF f t n l] by (simp add: mockDoc_def)
  then show ?thesis using b by blast
qed

text \<open>
  C6. The image issues are the images with at least one flag, in document order, cut to the
  first 10: an image is flagged when its \<open>alt\<close> is absent or blank after trimming, when its
  \<open>src\<close> does not contain \<open>.webp\<close>, or when its \<open>src\<close> contains \<open>large\<close>, \<open>big\<close> or
  \<open>original\<close>. The list has at most 10 entries and at most as many as there are images.
\<close>

theorem analyzeImages_spec:
  "analyzeImages imgs =
     take 10 (map imageIssue
       (filter (\<lambda>el. (case img_alt el of None \<Rightarrow> True | Some t \<Rightarrow> trim t = [])
                    \<or> \<not> str_includes (orEmpty (img_src el)) ''.webp''
                    \<or> str_includes (orEmpty (img_src el)) ''large''
                    \<or> str_includes (orEmpty (img_src el)) ''big''
                    \<or> str_includes (orEmpty (img_src el)) ''original'') imgs))
   \<and> list_all (\<lambda>i. alt i \<or> missingFormats i \<or> oversized i) (analyzeImages imgs)
   \<and> length (analyzeImages imgs) \<le> 10
   \<and> length (analyzeImages imgs) \<le> length imgs"
proof -
  let ?q = "\<lambda>el. alt (imageIssue el) \<or> missingFormats (imageIssue el) \<or> oversized (imageIssue el)"
  have eq: "analyzeImages imgs = take 10 (map imageIssue (filter ?q imgs))"
    by (simp add: analyzeImages_def foldl_pushImage)
  have q: "?q = (\<lambda>el. (case img_alt el of None \<Rightarrow> True | Some t \<Rightarrow> trim t = [])
                    \<or> \<not> str_includes (orEmpty (img_src el)) ''.webp''
                    \<or> str_includes (orEmpty (img_src el)) ''large''
                    \<or> str_includes (orEmpty (img_src el)) ''big''
                    \<or> str_includes (orEmpty (img_src el)) ''original'')"
    by (rule ext) (simp add: imageIssue_def Let_def noAlt_iff)
  have all: "list_all (\<lambda>i. alt i \<or> missingFormats i \<or> oversized i) (analyzeImages imgs)"
    unfolding eq list_all_iff by (auto dest!: in_set_takeD)
  have l10: "length (analyzeImages imgs) \<le> 10"
    by (simp add: analyzeImages_def)
  have ln: "length (analyzeImages imgs) \<le> length imgs"
    unfolding eq using length_filter_le [of _ imgs] by (simp add: min.coboundedI1)
  show ?thesis using eq all l10 ln unfolding q by simp
qed

theorem analyzeImages_spec_witness:
  "analyzeImages
     [\<lparr>img_src = Some ''a.jpg'', img_alt = None\<rparr>,
      \<lparr>img_src = Some ''b.webp'', img_alt = Some ''logo''\<rparr>,
      \<lparr>img_src = Some ''big.webp'', img_alt = Some ''x''\<rparr>,
      \<lparr>img_src = Some ''c.webp'', img_alt = Some ''  ''\<rparr>]
   = [\<lparr>src = ''a.jpg'', alt = True, missingFormats = True, oversized = False\<rparr>,
      \<lparr>src = ''big.webp'', alt = False, missingFormats = False, oversized = True\<rparr>,
      \<lparr>src = ''c.webp'', alt = True, missingFormats = False, oversized = False\<rparr>]"
  using analyzeImages_spec [of
     "[\<lparr>img_src = Some ''a.jpg'', img_alt = None\<rparr>,
      \<lparr>img_src = Some ''b.webp'', img_alt = Some ''logo''\<rparr>,
      \<lparr>img_src = Some ''big.webp'', img_alt = Some ''x''\<rparr>,
      \<lparr>img_src = Some ''c.webp'', img_alt = Some ''  ''\<rparr>]"]
  by (simp add: imageIssue_def noAlt_def trim_def js_whitespace_def orEmpty_def slice0_def)

text \<open>
  C7. Where the fetch and the reading of the body succeed, with a latency \<open>L\<close> of at most
  \<open>2 ^ 53\<close>, a body of \<open>S\<close> code units and a random double in \<open>[0, 1)\<close>, the estimator
  computes in doubles: \<open>ttfb\<close> is \<open>max (L - 50) 0\<close>; \<open>fcp\<close> is the double nearest to \<open>ttfb\<close>
  plus the smaller of 500 and the double nearest to \<open>S / 100\<close>; \<open>lcp\<close> is the double
  nearest to \<open>fcp + j\<close>, where the jitter \<open>j\<close> is the double nearest to 800 times the
  random number and \<open>0 \<le> j < 800\<close>. The report holds the three values rounded to the
  nearest integer, and none is negative.
\<close>

theorem estimateMetrics_reported:
  assumes rnd: "0 \<le> random w" "random w < 1" "fl (random w) = random w"
    and ok: "fetch w [] GET u = Inr res" "res_text res = Inr html"
    and lat: "now w [Fetch GET u] - now w [] \<le> 2 ^ 53"
  shows "\<exists>j. 0 \<le> j \<and> j < 800 \<and> j = fl (random w * 800) \<and>
     (let L = now w [Fetch GET u] - now w [];
          S = length html;
          m = estimateMetrics L S (random w);
          r = fst (runAudit w u)
      in ttfb m = real_of_int (max (L - 50) 0)
       \<and> fcp m = fl (ttfb m + min (fl (real S / 100)) 500)
       \<and> lcp m = fl (fcp m + j)
       \<and> ttfbMs r = Some (max (L - 50) 0)
       \<and> fcpMs r = Some (round (fcp m)) \<and> \<bar>real_of_int (round (fcp m)) - fcp m\<bar> \<le> 1 / 2
       \<and> lcpMs r = Some (round (lcp m)) \<and> \<bar>real_of_int (round (lcp m)) - lcp m\<bar> \<le> 1 / 2
       \<and> 0 \<le> max (L - 50) 0 \<and> 0 \<le> round (fcp m) \<and> 0 \<le> round (lcp m))"
proof -
  define L where "L = now w [Fetch GET u] - now w []"
  define m where "m = estimateMetrics L (length html) (random w)"
  define j where "j = fl (random w * 800)"
  have j: "0 \<le> j" "j < 800" unfolding j_def using fl_jitter [OF rnd] by simp_all
  have t: "ttfb m = real_of_int (max (L - 50) 0)"
  proof (cases "50 \<le> L")
    case True
    then have "\<bar>L - 50\<bar> < 2 ^ 53" using lat unfolding L_def [symmetric] by simp
    then have "fl (real_of_int (L - 50)) = real_of_int (L - 50)" by (rule fl_int)
    then show ?thesis using True by (simp add: m_def estimateMetrics_fields max_def)
  next
    case False
    then have "real_of_int L - 50 \<le> 0" by simp
    then have "fl (real_of_int L - 50) \<le> 0" by (rule fl_nonpos)
    then show ?thesis using False by (simp add: m_def estimateMetrics_fields max_def)
  qed
  have f: "fcp m = fl (ttfb m + min (fl (real (length html) / 100)) 500)"
    by (simp add: m_def estimateMetrics_fields)
  have l: "lcp m = fl (fcp m + j)"
    by (simp add: m_def j_def estimateMetrics_fields)
  have t0: "0 \<le> ttfb m" unfolding t by simp
  have s0: "0 \<le> fl (real (length html) / 100)" by (rule fl_nonneg) simp
  have f0: "0 \<le> fcp m" unfolding f using t0 s0 by (intro fl_nonneg) simp
  have l0: "0 \<le> lcp m" unfolding l using f0 j(1) by (intro fl_nonneg) simp
  have rt: "round (ttfb m) = max (L - 50) 0" unfolding t by simp
  have rep0: "ttfbMs (fst (runAudit w u)) = Some (round (ttfb m))"
    "fcpMs (fst (runAudit w u)) = Some (round (fcp m))"
    "lcpMs (fst (runAudit w u)) = Some (round (lcp m))"
    unfolding m_def L_def
    using runAudit_after_text [OF ok] fetchBlock_metrics [OF ok, of "emptyResult u"] by simp_all
  have rep: "ttfbMs (fst (runAudit w u)) = Some (max (L - 50) 0)"
    "fcpMs (fst (runAudit w u)) = Some (round (fcp m))"
    "lcpMs (fst (runAudit w u)) = Some (round (lcp m))"
    using rep0 rt by simp_all
  have near: "\<bar>real_of_int (round x) - x\<bar> \<le> 1 / 2" for x :: real
    by (rule of_int_round_abs_le)
  have body: "ttfb m = real_of_int (max (L - 50) 0)
       \<and> fcp m = fl (ttfb m + min (fl (real (length html) / 100)) 500)
       \<and> lcp m = fl (fcp m + j)
       \<and> ttfbMs (fst (runAudit w u)) = Some (max (L - 50) 0)
       \<and> fcpMs (fst (runAudit w u)) = Some (round (fcp m)) \<and> \<bar>real_of_int (round (fcp m)) - fcp m\<bar> \<le> 1 / 2
       \<and> lcpMs (fst (runAudit w u)) = Some (round (lcp m)) \<and> \<bar>real_of_int (round (lcp m)) - lcp m\<bar> \<le> 1 / 2
       \<and> 0 \<le> max (L - 50) 0 \<and> 0 \<le> round (fcp m) \<and> 0 \<le> round (lcp m)"
    using t f l rep near [of "fcp m"] near [of "lcp m"] round_nonneg [OF f0] round_nonneg [OF l0]
    by simp
  show ?thesis
    apply (rule exI [of _ j])
    using j body unfolding Let_def m_def L_def j_def by blast
qed

theorem estimateMetrics_reported_witness:
  "0 \<le> random (mockWorld (netServing (replicate 5000 CHR ''x'')) (\<lambda>h. Inr (mockDoc [] [])))
   \<and> random (mockWorld (netServing (replicate 5000 CHR ''x'')) (\<lambda>h. Inr (mockDoc [] []))) < 1
   \<and> fl (random (mockWorld (netServing (replicate 5000 CHR ''x'')) (\<lambda>h. Inr (mockDoc [] []))))
       = random (mockWorld (netServing (replicate 5000 CHR ''x'')) (\<lambda>h. Inr (mockDoc [] [])))
   \<and> fetch (mockWorld (netServing (replicate 5000 CHR ''x'')) (\<lambda>h. Inr (mockDoc [] []))) [] GET ''https://example.com/''
       = Inr (mockResponse 200 ''https://example.com/'' (replicate 5000 CHR ''x''))
   \<and> res_text (mockResponse 200 ''https://example.com/'' (replicate 5000 CHR ''x'')) = Inr (replicate 5000 CHR ''x'')
   \<and> ttfbMs (fst (runAudit (mockWorld (netServing (replicate 5000 CHR ''x'')) (\<lambda>h. Inr (mockDoc [] []))) ''https://example.com/'')) = Some 1150
   \<and> fcpMs (fst (runAudit (mockWorld (netServing (replicate 5000 CHR ''x'')) (\<lambda>h. Inr (mockDoc [] []))) ''https://example.com/'')) = Some 1200
   \<and> lcpMs (fst (runAudit (mockWorld (netServing (replicate 5000 CHR ''x'')) (\<lambda>h. Inr (mockDoc [] []))) ''https://example.com/'')) = Some 1600"
proof -
  let ?W = "mockWorld (netServing (replicate 5000 CHR ''x'')) (\<lambda>h. Inr (mockDoc [] []))"
  let ?U = "''https://example.com/''"
  have r: "random ?W = 1 / 2" by (simp add: mockWorld_def)
  have h1: "0 \<le> random ?W" and h2: "random ?W < 1" and h3: "fl (random ?W) = random ?W"
    unfolding r by (simp_all add: fl_half)
  have h4: "fetch ?W [] GET ?U = Inr (mockResponse 200 ?U (replicate 5000 CHR ''x''))"
    by (simp add: mockWorld_def netServing_def)
  have h5: "res_text (mockResponse 200 ?U (replicate 5000 CHR ''x'')) = Inr (replicate 5000 CHR ''x'')"
    by (simp add: mockResponse_def)
  have n: "now ?W [Fetch GET ?U] - now ?W [] = 1200"
    by (simp add: mockWorld_def)
  have h6: "now ?W [Fetch GET ?U] - now ?W [] \<le> 2 ^ 53" unfolding n by simp
  from estimateMetrics_reported [OF h1 h2 h3 h4 h5 h6]
  have "ttfbMs (fst (runAudit ?W ?U)) = Some 1150
      \<and> fcpMs (fst (runAudit ?W ?U)) = Some 1200
      \<and> lcpMs (fst (runAudit ?W ?U)) = Some 1600"
    unfolding Let_def n r by (simp add: estimateMetrics_fields fl_numeral)
  then show ?thesis using h1 h2 h3 h4 h5 by blast
qed

text \<open>
  With the latency 5000, a body of 50 code units and the random double \<open>1 - 1 / 2 ^ 52\<close>,
  \<open>fcp\<close> is 4950.5 and \<open>lcp\<close> is 5750.5: their difference is 800, and the report holds 5751.
\<close>

theorem rounded_sum_reaches_800:
  "fl ((2 ^ 52 - 1) / 2 ^ 52) = (2 ^ 52 - 1) / 2 ^ 52
   \<and> fcp (estimateMetrics 5000 50 ((2 ^ 52 - 1) / 2 ^ 52)) = 9901 / 2
   \<and> lcp (estimateMetrics 5000 50 ((2 ^ 52 - 1) / 2 ^ 52)) = 11501 / 2
   \<and> lcp (estimateMetrics 5000 50 ((2 ^ 52 - 1) / 2 ^ 52))
       - fcp (estimateMetrics 5000 50 ((2 ^ 52 - 1) / 2 ^ 52)) = 800
   \<and> round (lcp (estimateMetrics 5000 50 ((2 ^ 52 - 1) / 2 ^ 52))) = 5751
   \<and> lcpMs (fst (runAudit
         ((mockWorld (netServing (replicate 50 CHR ''x'')) (\<lambda>h. Inr (mockDoc [] [])))
            \<lparr>now := (\<lambda>evs. 5000 * int (length evs)), random := (2 ^ 52 - 1) / 2 ^ 52\<rparr>)
         ''https://example.com/'')) = Some 5751"
proof -
  let ?r = "(2 ^ 52 - 1) / 2 ^ 52 :: real"
  let ?B = "replicate 50 CHR ''x''"
  let ?U = "''https://example.com/''"
  let ?W = "(mockWorld (netServing ?B) (\<lambda>h. Inr (mockDoc [] [])))
              \<lparr>now := (\<lambda>evs. 5000 * int (length evs)), random := ?r\<rparr>"
  have a: "fl ?r = ?r"
    using fl_eval [of "- 1" ?r "2 ^ 53 - 2"] by (simp add: pow2_def)
  have b: "fl (real_of_int 5000 - 50) = 4950"
    using fl_int [of 4950] by simp
  have c: "fl (real 50 / 100) = 1 / 2" by (simp add: fl_half)
  have x: "max (4950 :: real) 0 + min (1 / 2) 500 = 9901 / 2" by simp
  have d: "fl (9901 / 2) = 9901 / 2"
    using fl_eval [of 12 "9901 / 2" "9901 * 2 ^ 39"] by (simp add: pow2_def)
  have e: "fl (?r * 800) = 800 - 1 / 2 ^ 42"
    using fl_eval [of 9 "?r * 800" "800 * 2 ^ 43 - 2"] by (simp add: pow2_def)
  have f: "fl (9901 / 2 + (800 - 1 / 2 ^ 42)) = 11501 / 2"
    using fl_eval [of 12 "9901 / 2 + (800 - 1 / 2 ^ 42)" "11501 * 2 ^ 39"] by (simp add: pow2_def)
  have fc: "fcp (estimateMetrics 5000 50 ?r) = 9901 / 2"
    unfolding estimateMetrics_fields b c x d by (rule refl)
  have lc: "lcp (estimateMetrics 5000 50 ?r) = 11501 / 2"
    unfolding estimateMetrics_fields b c x d e f by (rule refl)
  have rd: "round (11501 / 2 :: real) = 5751"
    by (simp add: round_def)
  have g: "fetch ?W [] GET ?U = Inr (mockResponse 200 ?U ?B)"
    by (simp add: mockWorld_def netServing_def)
  have t: "res_text (mockResponse 200 ?U ?B) = Inr ?B"
    by (simp add: mockResponse_def)
  have n: "now ?W [Fetch GET ?U] - now ?W [] = 5000" "random ?W = ?r" "length ?B = 50"
    by simp_all
  have "lcpMs (fst (runAudit ?W ?U)) = Some (round (lcp (estimateMetrics 5000 50 ?r)))"
    using runAudit_after_text(3) [OF g t] fetchBlock_metrics(3) [OF g t, of "emptyResult ?U"]
    unfolding n by simp
  then have rep: "lcpMs (fst (runAudit ?W ?U)) = Some 5751"
    unfolding lc rd .
  show ?thesis unfolding fc lc using a rd rep by simp
qed

text \<open>
  C8. \<open>checkRedirects\<close> makes a request exactly when the target parses, its host name does
  not start with \<open>www\<close> and the host name with \<open>www.\<close> before it is accepted as a new host
  name; the request is a GET of the target with that host name, and no other request is
  made. It returns one issue of type \<open>www\<close> exactly when that request is made and answered
  and the final URL of the answer is not the requested URL and does not start with the
  origin of the target; otherwise, also when the request fails, it returns no issue. It
  never throws.
\<close>

theorem checkRedirects_spec:
  "(snd (checkRedirects w evs u) \<noteq> evs) =
      (\<exists>p. URL_new w u = Some p \<and> \<not> startsWith (URL_hostname w p) ''www''
            \<and> URL_hostname w (URL_set_hostname w p (''www.'' @ URL_hostname w p)) \<noteq> URL_hostname w p)
   \<and> (snd (checkRedirects w evs u) = evs
      \<or> (\<exists>p. URL_new w u = Some p
            \<and> snd (checkRedirects w evs u) =
                evs @ [Fetch GET (URL_toString w (URL_set_hostname w p (''www.'' @ URL_hostname w p)))]))
   \<and> (fst (checkRedirects w evs u) = []
      \<or> fst (checkRedirects w evs u) =
           [\<lparr>issue_type = Www, message = ''Inconsistent www redirect behavior''\<rparr>])
   \<and> (fst (checkRedirects w evs u) = [\<lparr>issue_type = Www, message = ''Inconsistent www redirect behavior''\<rparr>]) =
       (\<exists>p res. URL_new w u = Some p
          \<and> \<not> startsWith (URL_hostname w p) ''www''
          \<and> URL_hostname w (URL_set_hostname w p (''www.'' @ URL_hostname w p)) \<noteq> URL_hostname w p
          \<and> fetch w evs GET (URL_toString w (URL_set_hostname w p (''www.'' @ URL_hostname w p))) = Inr res
          \<and> res_url res \<noteq> URL_toString w (URL_set_hostname w p (''www.'' @ URL_hostname w p))
          \<and> \<not> startsWith (res_url res) (URL_origin w p))
   \<and> checkRedirectsE w evs u = (Inr (fst (checkRedirects w evs u)), snd (checkRedirects w evs u))"
proof (cases "URL_new w u")
  case None
  then show ?thesis by (simp add: checkRedirects_def checkRedirectsE_eq)
next
  case (Some p)
  note p = this
  show ?thesis
  proof (cases "startsWith (URL_hostname w p) ''www''")
    case True
    then show ?thesis using p by (simp add: checkRedirects_def wwwVariant_def Let_def checkRedirectsE_eq)
  next
    case False
    note nw = this
    let ?www = "URL_set_hostname w p (''www.'' @ URL_hostname w p)"
    show ?thesis
    proof (cases "URL_hostname w ?www = URL_hostname w p")
      case True
      then show ?thesis using p nw by (simp add: checkRedirects_def wwwVariant_def Let_def checkRedirectsE_eq)
    next
      case False
      note ch = this
      show ?thesis
      proof (cases "fetch w evs GET (URL_toString w ?www)")
        case (Inl e)
        then show ?thesis using p nw ch by (simp add: checkRedirects_def wwwVariant_def Let_def checkRedirectsE_eq)
      next
        case (Inr res)
        then show ?thesis using p nw ch
          by (simp add: checkRedirects_def wwwVariant_def Let_def checkRedirectsE_eq)
      qed
    qed
  qed
qed

text \<open>A target whose \<open>www\<close> variant ends at another site gives the issue.\<close>

theorem checkRedirects_spec_witness:
  "checkRedirects (mockWorld netElsewhere (\<lambda>h. Inr (mockDoc [] []))) [] ''https://example.com/''
     = ([\<lparr>issue_type = Www, message = ''Inconsistent www redirect behavior''\<rparr>],
        [Fetch GET ''https://www.example.com/''])"
proof -
  let ?W = "mockWorld netElsewhere (\<lambda>h. Inr (mockDoc [] []))"
  let ?U = "''https://example.com/''"
  let ?p = "MockURL ''https:'' ''example.com'' ''/''"
  have p: "URL_new ?W ?U = Some ?p"
    by (simp add: mockWorld_def mockTable_def)
  have s: "URL_toString ?W (URL_set_hostname ?W ?p (''www.'' @ URL_hostname ?W ?p)) = ''https://www.example.com/''"
    by (simp add: mockWorld_def mockString_def)
  have h: "URL_hostname ?W ?p = ''example.com''"
    "URL_hostname ?W (URL_set_hostname ?W ?p (''www.'' @ URL_hostname ?W ?p)) = ''www.example.com''"
    by (simp_all add: mockWorld_def)
  have f: "fetch ?W [] GET ''https://www.example.com/'' = Inr (mockResponse 200 ''https://other.test/x'' ''<html></html>'')"
    by (simp add: mockWorld_def netElsewhere_def)
  have o: "URL_origin ?W ?p = ''https://example.com''"
    by (simp add: mockWorld_def)
  have ru: "res_url (mockResponse 200 ''https://other.test/x'' ''<html></html>'') = ''https://other.test/x''"
    by (simp add: mockResponse_def)
  note t = checkRedirects_spec [of ?W "[]" ?U]
  have made: "\<exists>q. URL_new ?W ?U = Some q \<and> \<not> startsWith (URL_hostname ?W q) ''www''
            \<and> URL_hostname ?W (URL_set_hostname ?W q (''www.'' @ URL_hostname ?W q)) \<noteq> URL_hostname ?W q"
    apply (rule exI [of _ ?p])
    using p by (simp add: mockWorld_def)
  with t have ne: "snd (checkRedirects ?W [] ?U) \<noteq> []" by blast
  from t ne p have ev: "snd (checkRedirects ?W [] ?U) = [Fetch GET ''https://www.example.com/'']"
    using s by auto
  have "\<exists>q res. URL_new ?W ?U = Some q
          \<and> \<not> startsWith (URL_hostname ?W q) ''www''
          \<and> URL_hostname ?W (URL_set_hostname ?W q (''www.'' @ URL_hostname ?W q)) \<noteq> URL_hostname ?W q
          \<and> fetch ?W [] GET (URL_toString ?W (URL_set_hostname ?W q (''www.'' @ URL_hostname ?W q))) = Inr res
          \<and> res_url res \<noteq> URL_toString ?W (URL_set_hostname ?W q (''www.'' @ URL_hostname ?W q))
          \<and> \<not> startsWith (res_url res) (URL_origin ?W q)"
    apply (rule exI [of _ ?p])
    apply (rule exI [of _ "mockResponse 200 ''https://other.test/x'' ''<html></html>''"])
    using p by (simp add: mockWorld_def mockString_def mockResponse_def netElsewhere_def)
  with t have "fst (checkRedirects ?W [] ?U) = [\<lparr>issue_type = Www, message = ''Inconsistent www redirect behavior''\<rparr>]"
    by blast
  then show ?thesis using ev by (simp add: prod_eq_iff)
qed

text \<open>
  C9. The three probes are made in one \<open>try\<close> block. Where \<open>/robots.txt\<close> and
  \<open>/sitemap.xml\<close> are answered 200 and the request for \<open>/sitemap_index.xml\<close> fails,
  \<open>hasSitemap\<close> stays false, although the probe of \<open>/sitemap.xml\<close> returned a success
  status; \<open>error\<close> is not set.
\<close>

theorem sitemap_probe_failure_hides_sitemap:
  "snd (runAudit (mockWorld netFlaky (\<lambda>h. Inr (mockDoc [] []))) ''https://example.com/'')
     = [Fetch GET ''https://example.com/'', Load ''<html></html>'',
        Fetch GET ''https://example.com/robots.txt'',
        Fetch GET ''https://example.com/sitemap.xml'',
        Fetch GET ''https://example.com/sitemap_index.xml'',
        Fetch GET ''https://www.example.com/'']
   \<and> fetch (mockWorld netFlaky (\<lambda>h. Inr (mockDoc [] [])))
        [Fetch GET ''https://example.com/'', Load ''<html></html>'', Fetch GET ''https://example.com/robots.txt'']
        GET ''https://example.com/sitemap.xml''
       = Inr (mockResponse 200 ''https://example.com/sitemap.xml'' ''<html></html>'')
   \<and> res_ok (mockResponse 200 ''https://example.com/sitemap.xml'' ''<html></html>'')
   \<and> fetch (mockWorld netFlaky (\<lambda>h. Inr (mockDoc [] [])))
        [Fetch GET ''https://example.com/'', Load ''<html></html>'', Fetch GET ''https://example.com/robots.txt'',
         Fetch GET ''https://example.com/sitemap.xml'']
        GET ''https://example.com/sitemap_index.xml''
       = Inl (Exn ''socket hang up'')
   \<and> hasRobots (fst (runAudit (mockWorld netFlaky (\<lambda>h. Inr (mockDoc [] []))) ''https://example.com/'')) = Some True
   \<and> hasSitemap (fst (runAudit (mockWorld netFlaky (\<lambda>h. Inr (mockDoc [] []))) ''https://example.com/'')) = Some False
   \<and> error (fst (runAudit (mockWorld netFlaky (\<lambda>h. Inr (mockDoc [] []))) ''https://example.com/'')) = None"
proof -
  let ?W = "mockWorld netFlaky (\<lambda>h. Inr (mockDoc [] []))"
  let ?U = "''https://example.com/''"
  let ?H = "''<html></html>''"
  have f: "fetch ?W [] GET ?U = Inr (mockResponse 200 ?U ?H)"
    by (simp add: mockWorld_def netFlaky_def)
  have t: "res_text (mockResponse 200 ?U ?H) = Inr ?H"
    by (simp add: mockResponse_def)
  have l: "cheerio_load ?W ?H = Inr (mockDoc [] [])"
    by (simp add: mockWorld_def)
  have run: "runAudit ?W ?U = fullRun ?W ?U ?H"
    using f t l by (rule runAudit_full [where html = ?H, simplified])
  have pres: "presenceBlock ?W ?U (safeOrigin ?W ?U) evs r =
                (r\<lparr>hasRobots := Some True\<rparr>,
                 evs @ [Fetch GET ''https://example.com/robots.txt'',
                        Fetch GET ''https://example.com/sitemap.xml'',
                        Fetch GET ''https://example.com/sitemap_index.xml''])" for evs r
    by (simp add: presenceBlock_def Let_def safeOrigin_def mockWorld_def mockTable_def netFlaky_def
          orEmpty_def res_ok_def mockResponse_def)
  have an: "snd (snd (analysisBlock ?W ?U (safeOrigin ?W ?U) ?H [Fetch GET ?U] r)) = [Fetch GET ?U, Load ?H]" for r
    unfolding analysisBlock_Inr(7) [OF l] by (simp add: checkBrokenLinks_def mockDoc_def)
  have red: "snd (checkRedirects ?W evs ?U) = evs @ [Fetch GET ''https://www.example.com/'']" for evs
    by (simp add: checkRedirects_def Let_def wwwVariant_def mockWorld_def mockTable_def mockString_def
          netFlaky_def)
  have tr: "snd (runAudit ?W ?U)
     = [Fetch GET ?U, Load ?H,
        Fetch GET ''https://example.com/robots.txt'',
        Fetch GET ''https://example.com/sitemap.xml'',
        Fetch GET ''https://example.com/sitemap_index.xml'',
        Fetch GET ''https://www.example.com/'']"
    unfolding run fullRun_def Let_def snd_conv pres an red by simp
  have s1: "fetch ?W [Fetch GET ?U, Load ?H, Fetch GET ''https://example.com/robots.txt'']
              GET ''https://example.com/sitemap.xml''
              = Inr (mockResponse 200 ''https://example.com/sitemap.xml'' ?H)"
    by (simp add: mockWorld_def netFlaky_def)
  have s2: "fetch ?W [Fetch GET ?U, Load ?H, Fetch GET ''https://example.com/robots.txt'',
                      Fetch GET ''https://example.com/sitemap.xml'']
              GET ''https://example.com/sitemap_index.xml'' = Inl (Exn ''socket hang up'')"
    by (simp add: mockWorld_def netFlaky_def)
  have ok: "res_ok (mockResponse 200 ''https://example.com/sitemap.xml'' ?H)"
    by (simp add: res_ok_def mockResponse_def)
  have rb: "hasRobots (fst (runAudit ?W ?U)) = Some True"
    unfolding run fullRun_presence pres by simp
  have sm: "hasSitemap (fst (runAudit ?W ?U)) = Some False"
    unfolding run fullRun_presence pres
    by (simp add: analysisBlock_keeps fetchBlock_keeps emptyResult_def)
  have er: "error (fst (runAudit ?W ?U)) = None"
    unfolding run by (simp add: fullRun_keeps analysisBlock_keeps fetchBlock_keeps emptyResult_def)
  show ?thesis using tr s1 s2 ok rb sm er by blast
qed

text \<open>
  C10. For every input and every behaviour of the network, of the parser and of the \<open>URL\<close>
  constructor, the promise of \<open>runAudit\<close> resolves and does not reject: every exception of
  the primary fetch, of the reading of the body, of the parser, of the \<open>URL\<close> constructor
  and of the probes is caught inside. The report it resolves to has the input as its
  \<open>url\<close>, also where the input does not parse as a URL. An exception of the primary fetch,
  of the reading of the body or of the parser ends in \<open>error\<close>; no other failure does.
\<close>

theorem runAudit_total:
  "runAuditE w u = (Inr (fst (runAudit w u)), snd (runAudit w u))
   \<and> (\<exists>r evs. runAuditE w u = (Inr r, evs) \<and> url r = u)
   \<and> url (fst (runAudit w u)) = u
   \<and> error (fst (runAudit w u)) =
       (case fetch w [] GET u of
          Inl e \<Rightarrow> Some (exn_message e)
        | Inr res \<Rightarrow>
            (case res_text res of
               Inl e \<Rightarrow> Some (exn_message e)
             | Inr html \<Rightarrow>
                 if html = [] then None
                 else (case cheerio_load w html of Inl e \<Rightarrow> Some (exn_message e) | Inr d \<Rightarrow> None)))"
  using runAudit_url_error [of w u] runAuditE_eq [of w u] by simp

text \<open>An input that is not a URL, on a network that is down.\<close>

theorem runAudit_total_witness:
  "runAuditE (mockWorld netDown (\<lambda>h. Inr (mockDoc [] []))) ''not a url''
     = (Inr ((emptyResult ''not a url'')\<lparr>error := Some ''fetch failed''\<rparr>), [Fetch GET ''not a url''])
   \<and> URL_new (mockWorld netDown (\<lambda>h. Inr (mockDoc [] []))) ''not a url'' = None"
proof -
  let ?W = "mockWorld netDown (\<lambda>h. Inr (mockDoc [] []))"
  have f: "fetch ?W [] GET ''not a url'' = Inl (Exn ''fetch failed'')"
    by (simp add: mockWorld_def netDown_def)
  have r: "runAudit ?W ''not a url''
             = ((emptyResult ''not a url'')\<lparr>error := Some ''fetch failed''\<rparr>, [Fetch GET ''not a url''])"
    using runAudit_fetch_Inl [OF f] by simp
  have n: "URL_new ?W ''not a url'' = None"
    by (simp add: mockWorld_def mockTable_def)
  show ?thesis using runAudit_total [of ?W "''not a url''"] r n by simp
qed

end
